theory Spec2Isabelle
  imports Complex_Main "HOL-Library.AList"
begin

section \<open>Data model (backend/server.py, lines 43-81)\<close>

text \<open>
  The pydantic models of the service. A \<open>datetime\<close> is a point on the clock, counted in
  microseconds, and is identified with its \<open>isoformat()\<close> string (the conversion is
  injective and pydantic parses the string back). A \<open>date\<close> is carried in its canonical
  ISO-8601 form \<open>YYYY-MM-DD\<close>, the form \<open>date.isoformat()\<close> stores. The \<open>_id\<close> field that
  MongoDB adds to every document is left out: the pydantic models ignore it and no
  handler reads it.
\<close>

type_synonym datetime = nat
type_synonym iso_date = string

record class_info =
  c_id :: string
  c_name :: string
  c_subject :: string
  c_created_at :: datetime

record student =
  s_id :: string
  s_name :: string
  s_roll_number :: string
  s_class_id :: string

record attendance_record =
  a_id :: string
  a_student_id :: string
  a_class_id :: string
  a_date :: iso_date
  a_status :: string
  a_marked_at :: datetime

record attendance_create =
  ac_student_id :: string
  ac_class_id :: string
  ac_date :: iso_date
  ac_status :: string

text \<open>
  \<open>AttendanceBulkCreate.attendance_records\<close> is a \<open>List[dict]\<close>: each item is a dictionary
  that may or may not hold the keys \<open>student_id\<close> and \<open>status\<close>. The values are taken to
  be strings, as \<open>AttendanceCreate\<close> declares the two fields.
\<close>

record attendance_bulk_create =
  b_class_id :: string
  b_date :: iso_date
  b_attendance_records :: "(string \<rightharpoonup> string) list"

datatype error = HTTPException nat string | KeyError string | ZeroDivisionError

section \<open>The document store and the environment\<close>

text \<open>
  The three collections, each a list of documents in insertion order, together with the
  two sources of the environment the handlers read: \<open>uuid.uuid4()\<close> and
  \<open>datetime.utcnow()\<close>. The \<open>n\<close>-th call of either returns the \<open>n\<close>-th value of its source.
\<close>

record state =
  classes :: "class_info list"
  students :: "student list"
  attendance :: "attendance_record list"
  uuid_source :: "nat \<Rightarrow> string"
  uuid_calls :: nat
  clock_source :: "nat \<Rightarrow> datetime"
  clock_calls :: nat

definition uuid4 :: "state \<Rightarrow> string \<times> state" where
  "uuid4 s = (uuid_source s (uuid_calls s), s\<lparr>uuid_calls := Suc (uuid_calls s)\<rparr>)"

definition utcnow :: "state \<Rightarrow> datetime \<times> state" where
  "utcnow s = (clock_source s (clock_calls s), s\<lparr>clock_calls := Suc (clock_calls s)\<rparr>)"

text \<open>The collection operations the handlers call (motor's \<open>find_one\<close>, \<open>find\<close> with
  \<open>to_list\<close>, \<open>insert_one\<close> and \<open>update_one\<close> with \<open>$set\<close>).\<close>

definition find_one :: "('a \<Rightarrow> bool) \<Rightarrow> 'a list \<Rightarrow> 'a option" where
  "find_one q coll = List.find q coll"

definition find_docs :: "('a \<Rightarrow> bool) \<Rightarrow> 'a list \<Rightarrow> 'a list" where
  "find_docs q coll = filter q coll"

definition to_list :: "nat \<Rightarrow> 'a list \<Rightarrow> 'a list" where
  "to_list n cursor = take n cursor"

definition insert_one :: "'a \<Rightarrow> 'a list \<Rightarrow> 'a list" where
  "insert_one doc coll = coll @ [doc]"

fun update_one :: "('a \<Rightarrow> bool) \<Rightarrow> ('a \<Rightarrow> 'a) \<Rightarrow> 'a list \<Rightarrow> 'a list" where
  "update_one q upd [] = []"
| "update_one q upd (d # ds) = (if q d then upd d # ds else d # update_one q upd ds)"

section \<open>Marking attendance (lines 132-180)\<close>

definition same_triple :: "attendance_create \<Rightarrow> attendance_record \<Rightarrow> bool" where
  "same_triple attendance_data r \<longleftrightarrow>
     a_student_id r = ac_student_id attendance_data \<and>
     a_class_id r = ac_class_id attendance_data \<and>
     a_date r = ac_date attendance_data"

definition mark_attendance :: "attendance_create \<Rightarrow> state \<Rightarrow> attendance_record \<times> state" where
  "mark_attendance attendance_data s =
     (case find_one (same_triple attendance_data) (attendance s) of
        Some existing \<Rightarrow>
          (let (t1, s1) = utcnow s;
               s2 = s1\<lparr>attendance :=
                      update_one (\<lambda>r. a_id r = a_id existing)
                        (\<lambda>r. r\<lparr>a_status := ac_status attendance_data, a_marked_at := t1\<rparr>)
                        (attendance s1)\<rparr>;
               (t2, s3) = utcnow s2
           in (existing\<lparr>a_status := ac_status attendance_data, a_marked_at := t2\<rparr>, s3))
      | None \<Rightarrow>
          (let (new_id, s1) = uuid4 s;
               (t1, s2) = utcnow s1;
               attendance_obj =
                 \<lparr>a_id = new_id,
                  a_student_id = ac_student_id attendance_data,
                  a_class_id = ac_class_id attendance_data,
                  a_date = ac_date attendance_data,
                  a_status = ac_status attendance_data,
                  a_marked_at = t1\<rparr>;
               (t2, s3) = utcnow s2;
               attendance_doc = attendance_obj\<lparr>a_marked_at := t2\<rparr>
           in (attendance_obj, s3\<lparr>attendance := insert_one attendance_doc (attendance s3)\<rparr>)))"

text \<open>The key of the upsert and the invariant of the attendance collection.\<close>

definition triple :: "attendance_record \<Rightarrow> string \<times> string \<times> iso_date" where
  "triple r = (a_student_id r, a_class_id r, a_date r)"

definition key_of :: "attendance_create \<Rightarrow> string \<times> string \<times> iso_date" where
  "key_of d = (ac_student_id d, ac_class_id d, ac_date d)"

definition one_per_triple :: "attendance_record list \<Rightarrow> bool" where
  "one_per_triple coll \<longleftrightarrow> distinct (map triple coll)"

definition fresh_uuid :: "state \<Rightarrow> bool" where
  "fresh_uuid s \<longleftrightarrow> uuid_source s (uuid_calls s) \<notin> set (map a_id (attendance s))"

text \<open>
  The bulk handler builds one \<open>AttendanceCreate\<close> per item and calls \<open>mark_attendance\<close>.
  \<open>record["student_id"]\<close> and \<open>record["status"]\<close> raise \<open>KeyError\<close> on a missing key, in
  that order; the exception leaves the loop, and what earlier iterations wrote stays
  written. The response message interpolates \<open>len(results)\<close> in decimal.
\<close>

definition digit_char :: "nat \<Rightarrow> char" where
  "digit_char n = ''0123456789'' ! n"

fun str_nat :: "nat \<Rightarrow> string" where
  "str_nat n = (if n < 10 then [digit_char n] else str_nat (n div 10) @ [digit_char (n mod 10)])"

declare str_nat.simps [simp del]

record bulk_response =
  message :: string
  records :: "attendance_record list"

fun bulk_loop ::
  "attendance_bulk_create \<Rightarrow> (string \<rightharpoonup> string) list \<Rightarrow> attendance_record list \<Rightarrow> state
     \<Rightarrow> (error + attendance_record list) \<times> state" where
  "bulk_loop bulk_data [] results s = (Inr results, s)"
| "bulk_loop bulk_data (record # rest) results s =
     (case record ''student_id'' of
        None \<Rightarrow> (Inl (KeyError ''student_id''), s)
      | Some sid \<Rightarrow>
          (case record ''status'' of
             None \<Rightarrow> (Inl (KeyError ''status''), s)
           | Some st \<Rightarrow>
               (let attendance_data =
                      \<lparr>ac_student_id = sid, ac_class_id = b_class_id bulk_data,
                       ac_date = b_date bulk_data, ac_status = st\<rparr>;
                    (result, s') = mark_attendance attendance_data s
                in bulk_loop bulk_data rest (results @ [result]) s')))"

definition mark_bulk_attendance ::
  "attendance_bulk_create \<Rightarrow> state \<Rightarrow> (error + bulk_response) \<times> state" where
  "mark_bulk_attendance bulk_data s =
     (case bulk_loop bulk_data (b_attendance_records bulk_data) [] s of
        (Inl e, s') \<Rightarrow> (Inl e, s')
      | (Inr results, s') \<Rightarrow>
          (Inr \<lparr>message = ''Marked attendance for '' @ str_nat (length results) @ '' students'',
                records = results\<rparr>, s'))"

text \<open>
  The bulk contract in the specification's words: the individual mark applied once per
  pair, in list order. An item is well formed when it holds both keys; \<open>request_of\<close> is the
  \<open>AttendanceCreate\<close> built from a well-formed item.
\<close>

fun mark_each :: "attendance_create list \<Rightarrow> state \<Rightarrow> attendance_record list \<times> state" where
  "mark_each [] s = ([], s)"
| "mark_each (d # ds) s =
     (let (r, s1) = mark_attendance d s;
          (rs, s2) = mark_each ds s1
      in (r # rs, s2))"

definition well_formed :: "(string \<rightharpoonup> string) \<Rightarrow> bool" where
  "well_formed item \<longleftrightarrow> item ''student_id'' \<noteq> None \<and> item ''status'' \<noteq> None"

definition request_of :: "attendance_bulk_create \<Rightarrow> (string \<rightharpoonup> string) \<Rightarrow> attendance_create" where
  "request_of bulk_data item =
     \<lparr>ac_student_id = the (item ''student_id''), ac_class_id = b_class_id bulk_data,
      ac_date = b_date bulk_data, ac_status = the (item ''status'')\<rparr>"

section \<open>Directory and listing endpoints (lines 96-129, 182-189)\<close>

text \<open>\<open>if class_id:\<close> and its like test Python truthiness: \<open>None\<close> and the empty string are
  both false.\<close>

definition truthy :: "string option \<Rightarrow> bool" where
  "truthy v = (case v of None \<Rightarrow> False | Some str \<Rightarrow> str \<noteq> [])"

definition get_classes :: "state \<Rightarrow> class_info list" where
  "get_classes s = to_list 1000 (find_docs (\<lambda>c. True) (classes s))"

definition get_class :: "string \<Rightarrow> state \<Rightarrow> error + class_info" where
  "get_class class_id s =
     (case find_one (\<lambda>c. c_id c = class_id) (classes s) of
        None \<Rightarrow> Inl (HTTPException 404 ''Class not found'')
      | Some cls \<Rightarrow> Inr cls)"

text \<open>The query document of \<open>get_students\<close>: empty, or one equality on \<open>class_id\<close>.\<close>

record student_query =
  sq_class_id :: "string option"

definition matches_student :: "student_query \<Rightarrow> student \<Rightarrow> bool" where
  "matches_student query st =
     (case sq_class_id query of None \<Rightarrow> True | Some c \<Rightarrow> s_class_id st = c)"

definition get_students :: "string option \<Rightarrow> state \<Rightarrow> student list" where
  "get_students class_id s =
     (let query = \<lparr>sq_class_id = None\<rparr>;
          query = (if truthy class_id then query\<lparr>sq_class_id := class_id\<rparr> else query)
      in to_list 1000 (find_docs (matches_student query) (students s)))"

definition get_student :: "string \<Rightarrow> state \<Rightarrow> error + student" where
  "get_student student_id s =
     (case find_one (\<lambda>st. s_id st = student_id) (students s) of
        None \<Rightarrow> Inl (HTTPException 404 ''Student not found'')
      | Some st \<Rightarrow> Inr st)"

text \<open>The query document of \<open>get_attendance\<close>: \<open>class_id\<close>, and an equality on \<open>date\<close> when
  one is given.\<close>

record attendance_query =
  aq_class_id :: string
  aq_date :: "string option"

definition matches_attendance :: "attendance_query \<Rightarrow> attendance_record \<Rightarrow> bool" where
  "matches_attendance query r \<longleftrightarrow>
     a_class_id r = aq_class_id query \<and>
     (case aq_date query of None \<Rightarrow> True | Some d \<Rightarrow> a_date r = d)"

definition get_attendance :: "string \<Rightarrow> string option \<Rightarrow> state \<Rightarrow> attendance_record list" where
  "get_attendance class_id date s =
     (let query = \<lparr>aq_class_id = class_id, aq_date = None\<rparr>;
          query = (if truthy date then query\<lparr>aq_date := date\<rparr> else query)
      in to_list 1000 (find_docs (matches_attendance query) (attendance s)))"

section \<open>Numbers of the report\<close>

text \<open>
  \<open>present_count / total_days * 100\<close> is computed in binary64: the true division of two
  integers and the product are each rounded to the nearest double, ties to even, and
  \<open>round(x, 2)\<close> rounds the exact value of the double to two decimals (ties to even) and
  returns the double nearest to that decimal. A non-negative double is a 53-bit mantissa
  and a binary exponent; the counts of a report never exceed the fetch size 1000, so every
  value met here is zero or lies well inside the normal range, and exponent limits play
  no role. When \<open>total_days\<close> is zero the percentage is the integer \<open>0\<close>.
\<close>

record float64 =
  mant :: nat
  expo :: int

datatype number = PyInt int | PyFloat float64

definition float_val :: "float64 \<Rightarrow> rat" where
  "float_val x =
     (if 0 \<le> expo x then of_nat (mant x) * 2 ^ nat (expo x)
      else of_nat (mant x) / 2 ^ nat (- expo x))"

fun bit_length :: "nat \<Rightarrow> nat" where
  "bit_length n = (if n = 0 then 0 else Suc (bit_length (n div 2)))"

declare bit_length.simps [simp del]

definition div_half_even :: "nat \<Rightarrow> nat \<Rightarrow> nat" where
  "div_half_even a b =
     (let q = a div b; r = a mod b
      in if 2 * r < b then q else if b < 2 * r then q + 1 else if even q then q else q + 1)"

text \<open>The double nearest to \<open>a / b\<close>, for \<open>b > 0\<close>.\<close>

definition nearest_float :: "nat \<Rightarrow> nat \<Rightarrow> float64" where
  "nearest_float a b =
     (if a = 0 then \<lparr>mant = 0, expo = 0\<rparr>
      else
        let k = int (bit_length a) - int (bit_length b);
            above = (if 0 \<le> k then b * 2 ^ nat k \<le> a else b \<le> a * 2 ^ nat (- k));
            e = (if above then k else k - 1) - 52;
            q = (if 0 \<le> e then div_half_even a (b * 2 ^ nat e)
                 else div_half_even (a * 2 ^ nat (- e)) b)
        in if q = 2 ^ 53 then \<lparr>mant = 2 ^ 52, expo = e + 1\<rparr> else \<lparr>mant = q, expo = e\<rparr>)"

definition true_div :: "nat \<Rightarrow> nat \<Rightarrow> error + float64" where
  "true_div a b = (if b = 0 then Inl ZeroDivisionError else Inr (nearest_float a b))"

definition float_mul_int :: "float64 \<Rightarrow> nat \<Rightarrow> float64" where
  "float_mul_int x n =
     (if 0 \<le> expo x then nearest_float (mant x * n * 2 ^ nat (expo x)) 1
      else nearest_float (mant x * n) (2 ^ nat (- expo x)))"

definition round_float :: "float64 \<Rightarrow> nat \<Rightarrow> float64" where
  "round_float x ndigits =
     (let scaled = (if 0 \<le> expo x then mant x * 10 ^ ndigits * 2 ^ nat (expo x)
                    else div_half_even (mant x * 10 ^ ndigits) (2 ^ nat (- expo x)))
      in nearest_float scaled (10 ^ ndigits))"

definition py_round :: "number \<Rightarrow> nat \<Rightarrow> number" where
  "py_round v ndigits = (case v of PyInt i \<Rightarrow> PyInt i | PyFloat x \<Rightarrow> PyFloat (round_float x ndigits))"

section \<open>The class report (lines 192-245)\<close>

text \<open>MongoDB compares strings byte by byte, a proper prefix first.\<close>

fun str_le :: "string \<Rightarrow> string \<Rightarrow> bool" where
  "str_le [] t = True"
| "str_le (a # u) [] = False"
| "str_le (a # u) (b # t) =
     (if (of_char a :: nat) < of_char b then True
      else if (of_char b :: nat) < of_char a then False
      else str_le u t)"

text \<open>The query document of the report: \<open>class_id\<close>, and on \<open>date\<close> a document with
  \<open>$gte\<close>, \<open>$lte\<close> or both when the bounds are given.\<close>

record date_range =
  gte :: "string option"
  lte :: "string option"

record report_query =
  rq_class_id :: string
  rq_date :: "date_range option"

definition matches_report :: "report_query \<Rightarrow> attendance_record \<Rightarrow> bool" where
  "matches_report query r \<longleftrightarrow>
     a_class_id r = rq_class_id query \<and>
     (case rq_date query of
        None \<Rightarrow> True
      | Some bounds \<Rightarrow>
          (case gte bounds of None \<Rightarrow> True | Some lo \<Rightarrow> str_le lo (a_date r)) \<and>
          (case lte bounds of None \<Rightarrow> True | Some hi \<Rightarrow> str_le (a_date r) hi))"

definition build_date_filter :: "string \<Rightarrow> string option \<Rightarrow> string option \<Rightarrow> report_query" where
  "build_date_filter class_id start_date end_date =
     (let date_filter = \<lparr>rq_class_id = class_id, rq_date = None\<rparr>;
          date_filter =
            (if truthy start_date
             then date_filter\<lparr>rq_date := Some \<lparr>gte = start_date, lte = None\<rparr>\<rparr>
             else date_filter);
          date_filter =
            (if truthy end_date
             then (case rq_date date_filter of
                     Some bounds \<Rightarrow> date_filter\<lparr>rq_date := Some (bounds\<lparr>lte := end_date\<rparr>)\<rparr>
                   | None \<Rightarrow> date_filter\<lparr>rq_date := Some \<lparr>gte = None, lte = end_date\<rparr>\<rparr>)
             else date_filter)
      in date_filter)"

record student_stat =
  student_name :: string
  roll_number :: string
  total_days :: nat
  present :: nat
  absent :: nat
  late :: nat
  attendance_percentage :: number

record report =
  class_info :: class_info
  report_period :: "string option \<times> string option"
  student_statistics :: "(string \<times> student_stat) list"

definition student_entry :: "student \<Rightarrow> attendance_record list \<Rightarrow> error + student_stat" where
  "student_entry st attendance_records =
     (let student_id = s_id st;
          student_attendance = filter (\<lambda>r. a_student_id r = student_id) attendance_records;
          total = length student_attendance;
          present_count = length (filter (\<lambda>r. a_status r = ''present'') student_attendance);
          absent_count = length (filter (\<lambda>r. a_status r = ''absent'') student_attendance);
          late_count = length (filter (\<lambda>r. a_status r = ''late'') student_attendance)
      in case (if total > 0
               then (case true_div present_count total of
                       Inl e \<Rightarrow> Inl e
                     | Inr q \<Rightarrow> Inr (PyFloat (float_mul_int q 100)))
               else Inr (PyInt 0)) of
           Inl e \<Rightarrow> Inl e
         | Inr percentage \<Rightarrow>
             Inr \<lparr>student_name = s_name st,
                  roll_number = s_roll_number st,
                  total_days = total,
                  present = present_count,
                  absent = absent_count,
                  late = late_count,
                  attendance_percentage = py_round percentage 2\<rparr>)"

text \<open>The loop over the students fills the dictionary \<open>student_stats\<close>: assigning to a key
  that is already there replaces its value in place, a new key goes to the end.\<close>

fun stats_loop ::
  "student list \<Rightarrow> attendance_record list \<Rightarrow> (string \<times> student_stat) list
     \<Rightarrow> error + (string \<times> student_stat) list" where
  "stats_loop [] attendance_records student_stats = Inr student_stats"
| "stats_loop (st # rest) attendance_records student_stats =
     (case student_entry st attendance_records of
        Inl e \<Rightarrow> Inl e
      | Inr entry \<Rightarrow>
          stats_loop rest attendance_records (AList.update (s_id st) entry student_stats))"

definition fetch_students :: "string \<Rightarrow> state \<Rightarrow> student list" where
  "fetch_students class_id s =
     to_list 1000 (find_docs (\<lambda>st. s_class_id st = class_id) (students s))"

definition fetch_attendance ::
  "string \<Rightarrow> string option \<Rightarrow> string option \<Rightarrow> state \<Rightarrow> attendance_record list" where
  "fetch_attendance class_id start_date end_date s =
     to_list 1000
       (find_docs (matches_report (build_date_filter class_id start_date end_date)) (attendance s))"

definition get_class_report ::
  "string \<Rightarrow> string option \<Rightarrow> string option \<Rightarrow> state \<Rightarrow> error + report" where
  "get_class_report class_id start_date end_date s =
     (case find_one (\<lambda>c. c_id c = class_id) (classes s) of
        None \<Rightarrow> Inl (HTTPException 404 ''Class not found'')
      | Some cls \<Rightarrow>
          (let class_students = fetch_students class_id s;
               attendance_records = fetch_attendance class_id start_date end_date s
           in case stats_loop class_students attendance_records [] of
                Inl e \<Rightarrow> Inl e
              | Inr student_stats \<Rightarrow>
                  Inr \<lparr>class_info = cls,
                       report_period = (start_date, end_date),
                       student_statistics = student_stats\<rparr>))"

section \<open>Example requests and stores\<close>

definition empty_store :: state where
  "empty_store =
     \<lparr>classes = [], students = [], attendance = [],
      uuid_source = (\<lambda>n. ''uuid-'' @ str_nat n), uuid_calls = 0,
      clock_source = (\<lambda>n. 1000 + n), clock_calls = 0\<rparr>"

definition mark_present :: attendance_create where
  "mark_present =
     \<lparr>ac_student_id = ''s1'', ac_class_id = ''c1'', ac_date = ''2024-01-15'',
      ac_status = ''present''\<rparr>"

definition mark_absent :: attendance_create where
  "mark_absent =
     \<lparr>ac_student_id = ''s1'', ac_class_id = ''c1'', ac_date = ''2024-01-15'',
      ac_status = ''absent''\<rparr>"

definition class_c1 :: class_info where
  "class_c1 =
     \<lparr>c_id = ''c1'', c_name = ''Algebra'', c_subject = ''Mathematics'', c_created_at = 900\<rparr>"

definition alice :: student where
  "alice = \<lparr>s_id = ''s1'', s_name = ''Alice'', s_roll_number = ''R1'', s_class_id = ''c1''\<rparr>"

definition bob :: student where
  "bob = \<lparr>s_id = ''s2'', s_name = ''Bob'', s_roll_number = ''R2'', s_class_id = ''c1''\<rparr>"

definition carol :: student where
  "carol = \<lparr>s_id = ''s3'', s_name = ''Carol'', s_roll_number = ''R3'', s_class_id = ''c1''\<rparr>"

definition att :: "string \<Rightarrow> string \<Rightarrow> iso_date \<Rightarrow> string \<Rightarrow> attendance_record" where
  "att rid sid day st =
     \<lparr>a_id = rid, a_student_id = sid, a_class_id = ''c1'', a_date = day, a_status = st,
      a_marked_at = 950\<rparr>"

text \<open>A class of three: Alice with three \<open>present\<close>, one \<open>absent\<close> and one \<open>late\<close>, Bob with no
  record, Carol with a status the report does not know.\<close>

definition school :: state where
  "school =
     empty_store
       \<lparr>classes := [class_c1],
        students := [alice, bob, carol],
        attendance :=
          [att ''a1'' ''s1'' ''2024-01-01'' ''present'',
           att ''a2'' ''s1'' ''2024-01-02'' ''present'',
           att ''a3'' ''s1'' ''2024-01-03'' ''absent'',
           att ''a4'' ''s1'' ''2024-01-04'' ''late'',
           att ''a5'' ''s1'' ''2024-01-05'' ''present'',
           att ''a6'' ''s3'' ''2024-01-01'' ''present'',
           att ''a7'' ''s3'' ''2024-01-15'' ''excused'',
           att ''a8'' ''s3'' ''2024-02-01'' ''late'']\<rparr>"

text \<open>A class with 1001 students \<open>s0\<close>, ..., \<open>s1000\<close>, and a store with a single student.\<close>

definition student_no :: "nat \<Rightarrow> student" where
  "student_no n =
     \<lparr>s_id = ''s'' @ str_nat n, s_name = ''Student '' @ str_nat n,
      s_roll_number = str_nat n, s_class_id = ''c1''\<rparr>"

definition student_roll :: "nat \<Rightarrow> student list" where
  "student_roll n = map student_no [0..<n]"

definition crowded_class :: state where
  "crowded_class = empty_store\<lparr>classes := [class_c1], students := student_roll 1001\<rparr>"

definition one_student :: state where
  "one_student = empty_store\<lparr>classes := [class_c1], students := [alice]\<rparr>"

text \<open>The three dated records of the report's date-window example.\<close>

definition dated :: state where
  "dated =
     empty_store
       \<lparr>classes := [class_c1],
        students := [alice],
        attendance :=
          [att ''a1'' ''s1'' ''2024-01-01'' ''present'',
           att ''a2'' ''s1'' ''2024-01-15'' ''present'',
           att ''a3'' ''s1'' ''2024-02-01'' ''present'']\<rparr>"

text \<open>A day on which students \<open>s0\<close>, ..., \<open>s1000\<close> were all marked present, the mark of \<open>s0\<close>
  stored last.\<close>

definition record_no :: "nat \<Rightarrow> attendance_record" where
  "record_no n = att (''a'' @ str_nat n) (''s'' @ str_nat n) ''2024-01-15'' ''present''"

definition attendance_roll :: "nat \<Rightarrow> attendance_record list" where
  "attendance_roll n = map record_no (rev [0..<n])"

definition busy_class :: state where
  "busy_class =
     empty_store
       \<lparr>classes := [class_c1], students := [student_no 0], attendance := attendance_roll 1001\<rparr>"

text \<open>Two bulk requests for class \<open>c1\<close>: one well formed, one whose second item has no
  \<open>status\<close>.\<close>

definition bulk_two :: attendance_bulk_create where
  "bulk_two =
     \<lparr>b_class_id = ''c1'', b_date = ''2024-01-15'',
      b_attendance_records =
        [[''student_id'' \<mapsto> ''s1'', ''status'' \<mapsto> ''present''],
         [''student_id'' \<mapsto> ''s2'', ''status'' \<mapsto> ''late'']]\<rparr>"

definition bulk_broken :: attendance_bulk_create where
  "bulk_broken =
     \<lparr>b_class_id = ''c1'', b_date = ''2024-01-15'',
      b_attendance_records =
        [[''student_id'' \<mapsto> ''s1'', ''status'' \<mapsto> ''present''],
         [''student_id'' \<mapsto> ''s2''],
         [''student_id'' \<mapsto> ''s3'', ''status'' \<mapsto> ''late'']]\<rparr>"

section \<open>The store operations\<close>

lemma find_one_SomeD: "find_one q coll = Some e \<Longrightarrow> e \<in> set coll \<and> q e"
  unfolding find_one_def by (auto simp: find_Some_iff)

lemma find_one_None_iff: "find_one q coll = None \<longleftrightarrow> (\<forall>x\<in>set coll. \<not> q x)"
  unfolding find_one_def by (auto simp: find_None_iff)

lemma find_one_split:
  "find_one q coll = Some e \<longleftrightarrow> (\<exists>pre post. coll = pre @ e # post \<and> q e \<and> (\<forall>x\<in>set pre. \<not> q x))"
  unfolding find_one_def
proof (induction coll)
  case Nil
  then show ?case by simp
next
  case (Cons a coll)
  show ?case
  proof (cases "q a")
    case True
    then show ?thesis
      apply (auto simp: Cons_eq_append_conv)
      done
  next
    case False
    then show ?thesis
      using Cons.IH
      apply (auto simp: Cons_eq_append_conv)
      apply (metis set_ConsD)
      done
  qed
qed

lemma update_one_split:
  "q e \<Longrightarrow> \<forall>x\<in>set pre. \<not> q x \<Longrightarrow> update_one q upd (pre @ e # post) = pre @ upd e # post"
  by (induction pre) auto

lemma update_one_none: "\<forall>x\<in>set coll. \<not> q x \<Longrightarrow> update_one q upd coll = coll"
  by (induction coll) auto

lemma map_triple_update_one:
  "map triple (update_one q (\<lambda>r. r\<lparr>a_status := st, a_marked_at := t\<rparr>) coll) = map triple coll"
  by (induction coll) (auto simp: triple_def)

lemma map_id_update_one:
  "map a_id (update_one q (\<lambda>r. r\<lparr>a_status := st, a_marked_at := t\<rparr>) coll) = map a_id coll"
  by (induction coll) auto

lemma same_triple_key: "same_triple d r \<longleftrightarrow> triple r = key_of d"
  by (auto simp: same_triple_def triple_def key_of_def)

lemma mark_attendance_found:
  assumes "find_one (same_triple d) (attendance s) = Some e"
  shows "mark_attendance d s =
    (e\<lparr>a_status := ac_status d, a_marked_at := clock_source s (Suc (clock_calls s))\<rparr>,
     s\<lparr>attendance := update_one (\<lambda>r. a_id r = a_id e)
            (\<lambda>r. r\<lparr>a_status := ac_status d, a_marked_at := clock_source s (clock_calls s)\<rparr>) (attendance s),
       clock_calls := Suc (Suc (clock_calls s))\<rparr>)"
  using assms by (simp add: mark_attendance_def utcnow_def)

lemma mark_attendance_new:
  assumes "find_one (same_triple d) (attendance s) = None"
  shows "mark_attendance d s =
    (\<lparr>a_id = uuid_source s (uuid_calls s), a_student_id = ac_student_id d, a_class_id = ac_class_id d,
      a_date = ac_date d, a_status = ac_status d, a_marked_at = clock_source s (clock_calls s)\<rparr>,
     s\<lparr>attendance := attendance s @
            [\<lparr>a_id = uuid_source s (uuid_calls s), a_student_id = ac_student_id d, a_class_id = ac_class_id d,
              a_date = ac_date d, a_status = ac_status d, a_marked_at = clock_source s (Suc (clock_calls s))\<rparr>],
       uuid_calls := Suc (uuid_calls s),
       clock_calls := Suc (Suc (clock_calls s))\<rparr>)"
  using assms by (simp add: mark_attendance_def utcnow_def uuid4_def insert_one_def)

section \<open>The upsert keeps one record per triple\<close>

lemma one_per_triple_mark:
  assumes "one_per_triple (attendance s)"
  shows "one_per_triple (attendance (snd (mark_attendance d s)))"
proof (cases "find_one (same_triple d) (attendance s)")
  case None
  then have "\<forall>x\<in>set (attendance s). triple x \<noteq> key_of d"
    by (simp add: find_one_None_iff same_triple_key)
  then have "key_of d \<notin> set (map triple (attendance s))" by auto
  moreover have "triple \<lparr>a_id = u, a_student_id = ac_student_id d, a_class_id = ac_class_id d,
      a_date = ac_date d, a_status = ac_status d, a_marked_at = t\<rparr> = key_of d" for u t
    by (simp add: triple_def key_of_def)
  ultimately show ?thesis
    using assms by (simp add: mark_attendance_new [OF None] one_per_triple_def)
next
  case (Some e)
  show ?thesis
    using assms by (simp add: mark_attendance_found [OF Some] one_per_triple_def map_triple_update_one)
qed

lemma filter_triple_single:
  assumes "distinct (map triple (pre @ e # post))" "triple e' = triple e"
  shows "filter (\<lambda>x. triple x = triple e) (pre @ e' # post) = [e']"
proof -
  have "\<forall>x\<in>set pre. triple x \<noteq> triple e" "\<forall>x\<in>set post. triple x \<noteq> triple e"
    using assms(1) by (force simp: image_iff)+
  then have "filter (\<lambda>x. triple x = triple e) pre = []" "filter (\<lambda>x. triple x = triple e) post = []"
    by (simp_all add: filter_empty_conv)
  then show ?thesis using assms(2) by simp
qed

lemma mark_existing_split:
  assumes coll: "attendance s = pre @ e # post"
    and tr: "distinct (map triple (attendance s))"
    and ids: "distinct (map a_id (attendance s))"
    and key: "triple e = key_of d"
  shows "mark_attendance d s =
    (e\<lparr>a_status := ac_status d, a_marked_at := clock_source s (Suc (clock_calls s))\<rparr>,
     s\<lparr>attendance := pre @ e\<lparr>a_status := ac_status d, a_marked_at := clock_source s (clock_calls s)\<rparr> # post,
       clock_calls := Suc (Suc (clock_calls s))\<rparr>)"
proof -
  have npre: "\<forall>x\<in>set pre. \<not> same_triple d x"
    using tr key unfolding coll same_triple_key by (force simp: image_iff)
  have "find_one (same_triple d) (attendance s) = Some e"
    unfolding find_one_split using coll key npre by (auto simp: same_triple_key)
  moreover have "\<forall>x\<in>set pre. \<not> a_id x = a_id e"
    using ids unfolding coll by (force simp: image_iff)
  then have "update_one (\<lambda>r. a_id r = a_id e) upd (pre @ e # post) = pre @ upd e # post" for upd
    by (simp add: update_one_split)
  ultimately show ?thesis
    by (simp add: mark_attendance_found coll)
qed

lemma mark_twice_new:
  assumes tr: "one_per_triple (attendance s)"
    and fresh: "fresh_uuid s"
    and none: "find_one (same_triple d1) (attendance s) = None"
    and key: "key_of d2 = key_of d1"
  shows "filter (\<lambda>x. triple x = key_of d1)
           (attendance (snd (mark_attendance d2 (snd (mark_attendance d1 s))))) =
         [\<lparr>a_id = uuid_source s (uuid_calls s), a_student_id = ac_student_id d1,
           a_class_id = ac_class_id d1, a_date = ac_date d1, a_status = ac_status d2,
           a_marked_at = clock_source s (Suc (Suc (clock_calls s)))\<rparr>]"
    and "a_id (fst (mark_attendance d1 s)) = uuid_source s (uuid_calls s)"
proof -
  let ?u = "uuid_source s (uuid_calls s)"
  let ?doc = "\<lparr>a_id = ?u, a_student_id = ac_student_id d1, a_class_id = ac_class_id d1,
      a_date = ac_date d1, a_status = ac_status d1, a_marked_at = clock_source s (Suc (clock_calls s))\<rparr>"
  let ?s1 = "snd (mark_attendance d1 s)"
  have att1: "attendance ?s1 = attendance s @ [?doc]" and clk1: "clock_calls ?s1 = Suc (Suc (clock_calls s))"
    and src1: "clock_source ?s1 = clock_source s"
    by (simp_all add: mark_attendance_new [OF none])
  have kdoc: "triple ?doc = key_of d1" by (simp add: triple_def key_of_def)
  have nokey: "\<forall>x\<in>set (attendance s). triple x \<noteq> key_of d1"
    using none by (simp add: find_one_None_iff same_triple_key)
  have noid: "\<forall>x\<in>set (attendance s). \<not> a_id x = a_id ?doc"
    using fresh by (force simp: fresh_uuid_def image_iff)
  have found: "find_one (same_triple d2) (attendance ?s1) = Some ?doc"
    unfolding find_one_split att1 using nokey kdoc key
    by (intro exI [of _ "attendance s"] exI [of _ "[]"]) (simp add: same_triple_key)
  have upd: "update_one (\<lambda>r. a_id r = a_id ?doc) f (attendance s @ [?doc]) = attendance s @ [f ?doc]" for f
    using update_one_split [of "\<lambda>r. a_id r = a_id ?doc" ?doc "attendance s" f "[]"] noid by simp
  have flt: "filter (\<lambda>x. triple x = key_of d1) (attendance s) = []"
    using nokey by (simp add: filter_empty_conv)
  show "filter (\<lambda>x. triple x = key_of d1) (attendance (snd (mark_attendance d2 ?s1))) =
         [\<lparr>a_id = ?u, a_student_id = ac_student_id d1,
           a_class_id = ac_class_id d1, a_date = ac_date d1, a_status = ac_status d2,
           a_marked_at = clock_source s (Suc (Suc (clock_calls s)))\<rparr>]"
    unfolding mark_attendance_found [OF found] using upd flt
    by (simp add: att1 clk1 src1 triple_def key_of_def)
  show "a_id (fst (mark_attendance d1 s)) = ?u"
    by (simp add: mark_attendance_new [OF none])
qed

lemma mark_twice_existing:
  assumes tr: "one_per_triple (attendance s)"
    and ids: "distinct (map a_id (attendance s))"
    and some: "find_one (same_triple d1) (attendance s) = Some e"
    and key: "key_of d2 = key_of d1"
  shows "filter (\<lambda>x. triple x = key_of d1)
           (attendance (snd (mark_attendance d2 (snd (mark_attendance d1 s))))) =
         [e\<lparr>a_status := ac_status d2, a_marked_at := clock_source s (Suc (Suc (clock_calls s)))\<rparr>]"
    and "a_id (fst (mark_attendance d1 s)) = a_id e"
proof -
  obtain pre post where coll: "attendance s = pre @ e # post"
    using some unfolding find_one_split by blast
  have ke: "triple e = key_of d1"
    using find_one_SomeD [OF some] by (simp add: same_triple_key)
  have tr': "distinct (map triple (attendance s))" using tr by (simp add: one_per_triple_def)
  let ?s1 = "snd (mark_attendance d1 s)"
  let ?e1 = "e\<lparr>a_status := ac_status d1, a_marked_at := clock_source s (clock_calls s)\<rparr>"
  note m1 = mark_existing_split [OF coll tr' ids ke]
  have att1: "attendance ?s1 = pre @ ?e1 # post" and clk1: "clock_calls ?s1 = Suc (Suc (clock_calls s))"
    and src1: "clock_source ?s1 = clock_source s"
    by (simp_all add: m1)
  have tr1: "distinct (map triple (attendance ?s1))"
    using tr' unfolding att1 coll by (simp add: triple_def)
  have ids1: "distinct (map a_id (attendance ?s1))"
    using ids unfolding att1 coll by simp
  have ke1: "triple ?e1 = key_of d2" using ke key by (simp add: triple_def)
  note m2 = mark_existing_split [OF att1 tr1 ids1 ke1]
  have "filter (\<lambda>x. triple x = triple e)
          (pre @ e\<lparr>a_status := ac_status d2, a_marked_at := clock_source s (Suc (Suc (clock_calls s)))\<rparr> # post) =
        [e\<lparr>a_status := ac_status d2, a_marked_at := clock_source s (Suc (Suc (clock_calls s)))\<rparr>]"
    by (rule filter_triple_single) (use tr' coll in \<open>simp_all add: triple_def\<close>)
  then show "filter (\<lambda>x. triple x = key_of d1)
           (attendance (snd (mark_attendance d2 ?s1))) =
         [e\<lparr>a_status := ac_status d2, a_marked_at := clock_source s (Suc (Suc (clock_calls s)))\<rparr>]"
    by (simp add: m2 clk1 src1 ke)
  show "a_id (fst (mark_attendance d1 s)) = a_id e" by (simp add: m1)
qed

text \<open>
  Claim C1. If the attendance collection holds at most one record per
  \<open>(student_id, class_id, date)\<close> triple, it still does after \<open>mark_attendance\<close>, and after a
  second mark. Two marks in a row for the same triple leave exactly one record for that
  triple, with the status of the second call and the id the first call returned: the id
  the first call generated, when the triple was not stored before and \<open>uuid4\<close> returns an
  id that is not yet stored; the id of the record that was there, when the triple was
  stored before and the stored ids are pairwise distinct.
\<close>

theorem mark_attendance_upsert:
  assumes inv: "one_per_triple (attendance s)"
  shows "one_per_triple (attendance (snd (mark_attendance d1 s))) \<and>
         one_per_triple (attendance (snd (mark_attendance d2 (snd (mark_attendance d1 s))))) \<and>
         (key_of d2 = key_of d1 \<and> find_one (same_triple d1) (attendance s) = None \<and> fresh_uuid s \<longrightarrow>
            (\<exists>r. filter (\<lambda>x. triple x = key_of d1)
                    (attendance (snd (mark_attendance d2 (snd (mark_attendance d1 s))))) = [r] \<and>
                 a_status r = ac_status d2 \<and>
                 a_id r = uuid_source s (uuid_calls s) \<and>
                 a_id (fst (mark_attendance d1 s)) = uuid_source s (uuid_calls s))) \<and>
         (\<forall>e. key_of d2 = key_of d1 \<and> find_one (same_triple d1) (attendance s) = Some e \<and>
              distinct (map a_id (attendance s)) \<longrightarrow>
            (\<exists>r. filter (\<lambda>x. triple x = key_of d1)
                    (attendance (snd (mark_attendance d2 (snd (mark_attendance d1 s))))) = [r] \<and>
                 a_status r = ac_status d2 \<and>
                 a_id r = a_id e \<and>
                 a_id (fst (mark_attendance d1 s)) = a_id e))"
proof (intro conjI impI allI)
  show first: "one_per_triple (attendance (snd (mark_attendance d1 s)))"
    by (rule one_per_triple_mark [OF inv])
  show "one_per_triple (attendance (snd (mark_attendance d2 (snd (mark_attendance d1 s)))))"
    by (rule one_per_triple_mark [OF first])
next
  assume h: "key_of d2 = key_of d1 \<and> find_one (same_triple d1) (attendance s) = None \<and> fresh_uuid s"
  then have key: "key_of d2 = key_of d1" and none: "find_one (same_triple d1) (attendance s) = None"
    and fresh: "fresh_uuid s" by simp_all
  show "\<exists>r. filter (\<lambda>x. triple x = key_of d1)
                    (attendance (snd (mark_attendance d2 (snd (mark_attendance d1 s))))) = [r] \<and>
                 a_status r = ac_status d2 \<and>
                 a_id r = uuid_source s (uuid_calls s) \<and>
                 a_id (fst (mark_attendance d1 s)) = uuid_source s (uuid_calls s)"
    using mark_twice_new [OF inv fresh none key] by simp
next
  fix e
  assume h: "key_of d2 = key_of d1 \<and> find_one (same_triple d1) (attendance s) = Some e \<and>
              distinct (map a_id (attendance s))"
  then have key: "key_of d2 = key_of d1" and some: "find_one (same_triple d1) (attendance s) = Some e"
    and ids: "distinct (map a_id (attendance s))" by simp_all
  show "\<exists>r. filter (\<lambda>x. triple x = key_of d1)
                    (attendance (snd (mark_attendance d2 (snd (mark_attendance d1 s))))) = [r] \<and>
                 a_status r = ac_status d2 \<and>
                 a_id r = a_id e \<and>
                 a_id (fst (mark_attendance d1 s)) = a_id e"
    using mark_twice_existing [OF inv ids some key] by simp
qed

text \<open>
  The two marks of C1 on the empty store, \<open>present\<close> then \<open>absent\<close>, where the first mark
  creates the record; and two further marks, \<open>absent\<close> then \<open>present\<close>, on the store the first
  mark left, where the record is already there.
\<close>

theorem mark_attendance_upsert_witness:
  "one_per_triple (attendance empty_store) \<and>
   key_of mark_absent = key_of mark_present \<and>
   find_one (same_triple mark_present) (attendance empty_store) = None \<and>
   fresh_uuid empty_store \<and>
   one_per_triple (attendance (snd (mark_attendance mark_present empty_store))) \<and>
   (\<exists>r. filter (\<lambda>x. triple x = key_of mark_present)
           (attendance (snd (mark_attendance mark_absent (snd (mark_attendance mark_present empty_store))))) = [r] \<and>
        a_status r = ''absent'' \<and> a_id r = ''uuid-0'' \<and>
        a_id (fst (mark_attendance mark_present empty_store)) = ''uuid-0'') \<and>
   find_one (same_triple mark_absent) (attendance (snd (mark_attendance mark_present empty_store))) =
     Some \<lparr>a_id = ''uuid-0'', a_student_id = ''s1'', a_class_id = ''c1'', a_date = ''2024-01-15'',
           a_status = ''present'', a_marked_at = 1001\<rparr> \<and>
   distinct (map a_id (attendance (snd (mark_attendance mark_present empty_store)))) \<and>
   (\<exists>r. filter (\<lambda>x. triple x = key_of mark_absent)
           (attendance (snd (mark_attendance mark_present
              (snd (mark_attendance mark_absent (snd (mark_attendance mark_present empty_store))))))) = [r] \<and>
        a_status r = ''present'' \<and> a_id r = ''uuid-0'')"
proof -
  let ?s1 = "snd (mark_attendance mark_present empty_store)"
  let ?e = "\<lparr>a_id = ''uuid-0'', a_student_id = ''s1'', a_class_id = ''c1'', a_date = ''2024-01-15'',
           a_status = ''present'', a_marked_at = 1001\<rparr>"
  have inv: "one_per_triple (attendance empty_store)"
    by (simp add: one_per_triple_def empty_store_def)
  have pre: "key_of mark_absent = key_of mark_present \<and>
      find_one (same_triple mark_present) (attendance empty_store) = None \<and> fresh_uuid empty_store"
    by (simp add: key_of_def mark_absent_def mark_present_def empty_store_def fresh_uuid_def
        find_one_def)
  have u: "uuid_source empty_store (uuid_calls empty_store) = ''uuid-0''"
    by (simp add: empty_store_def str_nat.simps digit_char_def)
  have st: "ac_status mark_absent = ''absent''" "ac_status mark_present = ''present''"
    by (simp_all add: mark_absent_def mark_present_def)
  note new = mark_attendance_upsert [OF inv, of mark_present mark_absent]
  then have inv1: "one_per_triple (attendance ?s1)" by simp
  have att1: "attendance ?s1 = [?e]"
    by (simp add: mark_attendance_def empty_store_def mark_present_def find_one_def
        same_triple_def uuid4_def utcnow_def insert_one_def str_nat.simps digit_char_def)
  have found: "find_one (same_triple mark_absent) (attendance ?s1) = Some ?e"
    by (simp add: att1 find_one_def same_triple_def mark_absent_def)
  have ids: "distinct (map a_id (attendance ?s1))" by (simp add: att1)
  note old = mark_attendance_upsert [OF inv1, of mark_absent mark_present]
  have key: "key_of mark_present = key_of mark_absent" using pre by simp
  from old key found ids st
  have "\<exists>r. filter (\<lambda>x. triple x = key_of mark_absent)
           (attendance (snd (mark_attendance mark_present (snd (mark_attendance mark_absent ?s1))))) = [r] \<and>
        a_status r = ''present'' \<and> a_id r = ''uuid-0''"
    by auto
  moreover from new inv pre u st
  have "\<exists>r. filter (\<lambda>x. triple x = key_of mark_present)
           (attendance (snd (mark_attendance mark_absent ?s1))) = [r] \<and>
        a_status r = ''absent'' \<and> a_id r = ''uuid-0'' \<and>
        a_id (fst (mark_attendance mark_present empty_store)) = ''uuid-0''"
    by auto
  ultimately show ?thesis using inv pre inv1 found ids by simp
qed

section \<open>What a mark returns and what it stores\<close>

lemma mark_attendance_returned_fields:
  assumes "mark_attendance d s = (r, s')"
  shows "a_student_id r = ac_student_id d \<and> a_class_id r = ac_class_id d \<and>
         a_date r = ac_date d \<and> a_status r = ac_status d \<and>
         a_marked_at r = clock_source s (case find_one (same_triple d) (attendance s) of
                                           None \<Rightarrow> clock_calls s | Some e \<Rightarrow> Suc (clock_calls s))"
proof (cases "find_one (same_triple d) (attendance s)")
  case None
  then show ?thesis using assms by (auto simp: mark_attendance_new)
next
  case (Some e)
  then show ?thesis
    using assms find_one_SomeD [OF Some] by (auto simp: mark_attendance_found same_triple_def)
qed

lemma mark_attendance_stored_record:
  assumes inv: "one_per_triple (attendance s)"
    and ids: "distinct (map a_id (attendance s))"
    and fresh: "fresh_uuid s"
    and m: "mark_attendance d s = (r, s')"
  shows "filter (\<lambda>x. triple x = key_of d) (attendance s') =
           [r\<lparr>a_marked_at := clock_source s (case find_one (same_triple d) (attendance s) of
                                               None \<Rightarrow> Suc (clock_calls s) | Some e \<Rightarrow> clock_calls s)\<rparr>]"
proof (cases "find_one (same_triple d) (attendance s)")
  case None
  then have "\<forall>x\<in>set (attendance s). triple x \<noteq> key_of d"
    by (simp add: find_one_None_iff same_triple_key)
  then have "filter (\<lambda>x. triple x = key_of d) (attendance s) = []"
    by (simp add: filter_empty_conv)
  then show ?thesis
    using m None by (auto simp: mark_attendance_new triple_def key_of_def)
next
  case (Some e)
  obtain pre post where coll: "attendance s = pre @ e # post"
    using Some unfolding find_one_split by blast
  have ke: "triple e = key_of d"
    using find_one_SomeD [OF Some] by (simp add: same_triple_key)
  have tr: "distinct (map triple (attendance s))" using inv by (simp add: one_per_triple_def)
  have "filter (\<lambda>x. triple x = triple e)
          (pre @ e\<lparr>a_status := ac_status d, a_marked_at := clock_source s (clock_calls s)\<rparr> # post) =
        [e\<lparr>a_status := ac_status d, a_marked_at := clock_source s (clock_calls s)\<rparr>]"
    by (rule filter_triple_single) (use tr coll in \<open>simp_all add: triple_def\<close>)
  then show ?thesis
    using m Some mark_existing_split [OF coll tr ids ke] by (auto simp: ke)
qed

text \<open>
  Claim C8. The record a mark returns and the record it stores agree on \<open>id\<close>,
  \<open>student_id\<close>, \<open>class_id\<close>, \<open>date\<close> and \<open>status\<close> (the two lemmas above), but each takes its
  \<open>marked_at\<close> from a clock reading of its own. On the empty store, with a clock that
  advances by one at every reading, the first mark returns \<open>marked_at = 1000\<close> and stores
  \<open>1001\<close>; the second mark of the same triple stores \<open>1002\<close> and returns \<open>1003\<close>.
\<close>

theorem mark_attendance_marked_at_differs:
  "fst (mark_attendance mark_present empty_store) =
     \<lparr>a_id = ''uuid-0'', a_student_id = ''s1'', a_class_id = ''c1'', a_date = ''2024-01-15'',
      a_status = ''present'', a_marked_at = 1000\<rparr> \<and>
   attendance (snd (mark_attendance mark_present empty_store)) =
     [\<lparr>a_id = ''uuid-0'', a_student_id = ''s1'', a_class_id = ''c1'', a_date = ''2024-01-15'',
       a_status = ''present'', a_marked_at = 1001\<rparr>] \<and>
   fst (mark_attendance mark_absent (snd (mark_attendance mark_present empty_store))) =
     \<lparr>a_id = ''uuid-0'', a_student_id = ''s1'', a_class_id = ''c1'', a_date = ''2024-01-15'',
      a_status = ''absent'', a_marked_at = 1003\<rparr> \<and>
   attendance (snd (mark_attendance mark_absent (snd (mark_attendance mark_present empty_store)))) =
     [\<lparr>a_id = ''uuid-0'', a_student_id = ''s1'', a_class_id = ''c1'', a_date = ''2024-01-15'',
       a_status = ''absent'', a_marked_at = 1002\<rparr>]"
  by (simp add: mark_attendance_def empty_store_def mark_present_def mark_absent_def find_one_def
      same_triple_def uuid4_def utcnow_def insert_one_def str_nat.simps digit_char_def)

section \<open>Lookups by id\<close>

lemma student_entry_total:
  "\<exists>e. student_entry st recs = Inr e"
  by (simp add: student_entry_def Let_def true_div_def)

lemma stats_loop_total:
  "\<exists>stats. stats_loop sts recs acc = Inr stats"
proof (induction sts arbitrary: acc)
  case Nil
  then show ?case by simp
next
  case (Cons st sts)
  obtain e where "student_entry st recs = Inr e"
    using student_entry_total by blast
  then show ?case using Cons.IH by simp
qed

lemma get_class_report_found:
  assumes "find_one (\<lambda>c. c_id c = cid) (classes s) = Some cls"
  shows "\<exists>stats. get_class_report cid sd ed s =
           Inr \<lparr>class_info = cls, report_period = (sd, ed), student_statistics = stats\<rparr> \<and>
           stats_loop (fetch_students cid s) (fetch_attendance cid sd ed s) [] = Inr stats"
proof -
  obtain stats where "stats_loop (fetch_students cid s) (fetch_attendance cid sd ed s) [] = Inr stats"
    using stats_loop_total by blast
  then show ?thesis using assms by (simp add: get_class_report_def)
qed

lemma find_one_cases:
  obtains (absent) "find_one q coll = None" "\<forall>x\<in>set coll. \<not> q x"
  | (present) x where "find_one q coll = Some x" "x \<in> set coll" "q x"
proof (cases "find_one q coll")
  case None
  then show ?thesis using absent by (simp add: find_one_None_iff)
next
  case (Some x)
  then show ?thesis using present find_one_SomeD by fastforce
qed

text \<open>
  Claim C6. \<open>get_class\<close>, \<open>get_student\<close> and \<open>get_class_report\<close> answer 404 exactly when no
  stored class (student, class) has the requested id; when one has, they return a stored
  record with that id (the report: a report on that class), never an error.
\<close>

theorem not_found_iff_absent:
  "((\<forall>c\<in>set (classes s). c_id c \<noteq> cid) \<longleftrightarrow>
      get_class cid s = Inl (HTTPException 404 ''Class not found'')) \<and>
   ((\<exists>c\<in>set (classes s). c_id c = cid) \<longleftrightarrow>
      (\<exists>c. get_class cid s = Inr c \<and> c \<in> set (classes s) \<and> c_id c = cid)) \<and>
   ((\<forall>st\<in>set (students s). s_id st \<noteq> sid) \<longleftrightarrow>
      get_student sid s = Inl (HTTPException 404 ''Student not found'')) \<and>
   ((\<exists>st\<in>set (students s). s_id st = sid) \<longleftrightarrow>
      (\<exists>st. get_student sid s = Inr st \<and> st \<in> set (students s) \<and> s_id st = sid)) \<and>
   ((\<forall>c\<in>set (classes s). c_id c \<noteq> cid) \<longleftrightarrow>
      get_class_report cid sd ed s = Inl (HTTPException 404 ''Class not found'')) \<and>
   ((\<exists>c\<in>set (classes s). c_id c = cid) \<longleftrightarrow>
      (\<exists>r. get_class_report cid sd ed s = Inr r \<and> class_info r \<in> set (classes s) \<and>
           c_id (class_info r) = cid))"
proof (intro conjI)
  show "(\<forall>c\<in>set (classes s). c_id c \<noteq> cid) \<longleftrightarrow>
      get_class cid s = Inl (HTTPException 404 ''Class not found'')"
    by (cases rule: find_one_cases [of "\<lambda>c. c_id c = cid" "classes s"])
       (auto simp: get_class_def)
  show "(\<exists>c\<in>set (classes s). c_id c = cid) \<longleftrightarrow>
      (\<exists>c. get_class cid s = Inr c \<and> c \<in> set (classes s) \<and> c_id c = cid)"
    by (cases rule: find_one_cases [of "\<lambda>c. c_id c = cid" "classes s"])
       (auto simp: get_class_def)
  show "(\<forall>st\<in>set (students s). s_id st \<noteq> sid) \<longleftrightarrow>
      get_student sid s = Inl (HTTPException 404 ''Student not found'')"
    by (cases rule: find_one_cases [of "\<lambda>st. s_id st = sid" "students s"])
       (auto simp: get_student_def)
  show "(\<exists>st\<in>set (students s). s_id st = sid) \<longleftrightarrow>
      (\<exists>st. get_student sid s = Inr st \<and> st \<in> set (students s) \<and> s_id st = sid)"
    by (cases rule: find_one_cases [of "\<lambda>st. s_id st = sid" "students s"])
       (auto simp: get_student_def)
  show "(\<forall>c\<in>set (classes s). c_id c \<noteq> cid) \<longleftrightarrow>
      get_class_report cid sd ed s = Inl (HTTPException 404 ''Class not found'')"
  proof (cases rule: find_one_cases [of "\<lambda>c. c_id c = cid" "classes s"])
    case absent
    then show ?thesis by (simp add: get_class_report_def)
  next
    case (present cls)
    obtain stats where "get_class_report cid sd ed s =
        Inr \<lparr>class_info = cls, report_period = (sd, ed), student_statistics = stats\<rparr>"
      using get_class_report_found [OF present(1)] by blast
    then show ?thesis using present(2,3) by auto
  qed
  show "(\<exists>c\<in>set (classes s). c_id c = cid) \<longleftrightarrow>
      (\<exists>r. get_class_report cid sd ed s = Inr r \<and> class_info r \<in> set (classes s) \<and>
           c_id (class_info r) = cid)"
  proof (cases rule: find_one_cases [of "\<lambda>c. c_id c = cid" "classes s"])
    case absent
    then show ?thesis by (simp add: get_class_report_def)
  next
    case (present cls)
    obtain stats where "get_class_report cid sd ed s =
        Inr \<lparr>class_info = cls, report_period = (sd, ed), student_statistics = stats\<rparr>"
      using get_class_report_found [OF present(1)] by blast
    then show ?thesis using present(2,3) by auto
  qed
qed

text \<open>The lookups of C6 on the example class, for ids that are stored and ids that are not.\<close>

theorem not_found_iff_absent_witness:
  "get_class ''c1'' school = Inr class_c1 \<and>
   get_class ''c9'' school = Inl (HTTPException 404 ''Class not found'') \<and>
   get_student ''s2'' school = Inr bob \<and>
   get_student ''s9'' school = Inl (HTTPException 404 ''Student not found'') \<and>
   get_class_report ''c9'' None None school = Inl (HTTPException 404 ''Class not found'') \<and>
   (\<exists>r. get_class_report ''c1'' None None school = Inr r \<and> class_info r = class_c1)"
proof -
  have cls: "classes school = [class_c1]" and sts: "students school = [alice, bob, carol]"
    by (simp_all add: school_def empty_store_def)
  have ids: "c_id class_c1 = ''c1''" "s_id alice = ''s1''" "s_id bob = ''s2''" "s_id carol = ''s3''"
    by (simp_all add: class_c1_def alice_def bob_def carol_def)
  have found: "find_one (\<lambda>c. c_id c = ''c1'') (classes school) = Some class_c1"
    by (simp add: find_one_def cls ids)
  note absent = not_found_iff_absent [of school "''c9''" "''s9''" None None]
  have "get_class ''c9'' school = Inl (HTTPException 404 ''Class not found'')"
    and "get_student ''s9'' school = Inl (HTTPException 404 ''Student not found'')"
    and "get_class_report ''c9'' None None school = Inl (HTTPException 404 ''Class not found'')"
    using absent by (simp_all add: cls sts ids)
  moreover have "get_class ''c1'' school = Inr class_c1" "get_student ''s2'' school = Inr bob"
    by (simp_all add: get_class_def get_student_def find_one_def cls sts ids)
  moreover have "\<exists>r. get_class_report ''c1'' None None school = Inr r \<and> class_info r = class_c1"
    using get_class_report_found [OF found, of None None] by auto
  ultimately show ?thesis by simp
qed

section \<open>Listing students\<close>

lemma length_student_roll: "length (student_roll n) = n"
  by (simp add: student_roll_def)

lemma filter_student_roll:
  "filter (\<lambda>st. s_class_id st = ''c1'') (student_roll n) = student_roll n"
  by (simp add: student_roll_def filter_map o_def student_no_def)

lemma take_student_roll: "k \<le> n \<Longrightarrow> take k (student_roll n) = student_roll k"
  by (simp add: student_roll_def take_map take_upt)

lemma get_students_eq:
  "get_students class_id s =
     take 1000 (filter (\<lambda>st. truthy class_id \<longrightarrow> Some (s_class_id st) = class_id) (students s))"
  by (cases class_id) (auto simp: get_students_def truthy_def to_list_def find_docs_def
      matches_student_def Let_def intro!: arg_cong [where f = "take 1000"] filter_cong)

text \<open>
  Claim C9, as the code has it. With a non-empty \<open>class_id\<close> the listing is the first 1000
  students, in store order, whose \<open>class_id\<close> equals it, hence all of them when there are
  at most 1000. With no \<open>class_id\<close>, or with the empty string (which \<open>if class_id:\<close> takes
  for absent), it is the first 1000 students of the store.
\<close>

theorem get_students_filter:
  "(c \<noteq> [] \<longrightarrow>
      get_students (Some c) s = take 1000 (filter (\<lambda>st. s_class_id st = c) (students s)) \<and>
      (length (filter (\<lambda>st. s_class_id st = c) (students s)) \<le> 1000 \<longrightarrow>
         get_students (Some c) s = filter (\<lambda>st. s_class_id st = c) (students s))) \<and>
   get_students (Some []) s = take 1000 (students s) \<and>
   get_students None s = take 1000 (students s) \<and>
   (length (students s) \<le> 1000 \<longrightarrow> get_students None s = students s)"
  by (simp add: get_students_eq truthy_def)

text \<open>
  The claim as stated fails twice: the filter \<open>class_id = ""\<close> lists a student whose
  \<open>class_id\<close> is \<open>c1\<close>, and a class of 1001 students is not listed in full.
\<close>

theorem get_students_filter_counterexample:
  "get_students (Some '''') one_student \<noteq>
     filter (\<lambda>st. s_class_id st = '''') (students one_student) \<and>
   get_students (Some ''c1'') crowded_class \<noteq>
     filter (\<lambda>st. s_class_id st = ''c1'') (students crowded_class)"
proof (intro conjI)
  show "get_students (Some '''') one_student \<noteq>
     filter (\<lambda>st. s_class_id st = '''') (students one_student)"
    by (simp add: get_students_eq truthy_def one_student_def empty_store_def alice_def)
  have sts: "students crowded_class = student_roll 1001"
    by (simp add: crowded_class_def empty_store_def)
  have "length (get_students (Some ''c1'') crowded_class) \<le> 1000"
    by (simp add: get_students_eq)
  moreover have "length (filter (\<lambda>st. s_class_id st = ''c1'') (students crowded_class)) = 1001"
    by (simp only: sts filter_student_roll length_student_roll)
  ultimately show "get_students (Some ''c1'') crowded_class \<noteq>
     filter (\<lambda>st. s_class_id st = ''c1'') (students crowded_class)"
    by auto
qed

text \<open>The listing on a store with one student of class \<open>c1\<close>.\<close>

theorem get_students_filter_witness:
  "get_students (Some ''c1'') one_student = [alice] \<and>
   get_students (Some ''c2'') one_student = [] \<and>
   get_students (Some []) one_student = [alice] \<and>
   get_students None one_student = [alice]"
  using get_students_filter [of "''c1''" one_student] get_students_filter [of "''c2''" one_student]
  by (simp add: one_student_def empty_store_def alice_def)

section \<open>The date window of the report\<close>

lemma str_le_lexord:
  "str_le u t \<longleftrightarrow> u = t \<or> (u, t) \<in> lexord {(a, b). (of_char a :: nat) < of_char b}"
proof (induction u t rule: str_le.induct)
  case (1 t)
  then show ?case by (cases t) auto
next
  case (2 a u)
  then show ?case by simp
next
  case (3 a u b t)
  then show ?case by (auto simp: of_char_eq_iff)
qed

lemma matches_report_filter:
  "matches_report (build_date_filter cid sd ed) r \<longleftrightarrow>
     a_class_id r = cid \<and>
     (\<forall>lo. sd = Some lo \<and> lo \<noteq> [] \<longrightarrow> str_le lo (a_date r)) \<and>
     (\<forall>hi. ed = Some hi \<and> hi \<noteq> [] \<longrightarrow> str_le (a_date r) hi)"
  by (cases sd; cases ed)
     (auto simp: matches_report_def build_date_filter_def truthy_def Let_def)

lemma length_attendance_roll: "length (attendance_roll n) = n"
  by (simp add: attendance_roll_def)

lemma filter_attendance_roll:
  "filter (\<lambda>r. a_class_id r = ''c1'') (attendance_roll n) = attendance_roll n"
  by (simp add: attendance_roll_def filter_map o_def record_no_def att_def)

text \<open>
  Claim C5, as the code has it. The records the report aggregates are the first 1000, in
  store order, of the class's records whose date lies in the window: \<open>start_date \<le> date\<close>
  when \<open>start_date\<close> is given and not empty, \<open>date \<le> end_date\<close> when \<open>end_date\<close> is given and not
  empty, each bound on its own and inclusive. The comparison is the lexicographic order
  of the strings by byte value. The report of an existing class is computed from exactly
  these records.
\<close>

theorem report_date_filter:
  "fetch_attendance cid sd ed s =
     take 1000
       (filter (\<lambda>r. a_class_id r = cid \<and>
                    (\<forall>lo. sd = Some lo \<and> lo \<noteq> [] \<longrightarrow> str_le lo (a_date r)) \<and>
                    (\<forall>hi. ed = Some hi \<and> hi \<noteq> [] \<longrightarrow> str_le (a_date r) hi))
          (attendance s)) \<and>
   (\<forall>u t. str_le u t \<longleftrightarrow> u = t \<or> (u, t) \<in> lexord {(a, b). (of_char a :: nat) < of_char b}) \<and>
   (\<forall>cls. find_one (\<lambda>c. c_id c = cid) (classes s) = Some cls \<longrightarrow>
      (\<exists>stats. get_class_report cid sd ed s =
                 Inr \<lparr>class_info = cls, report_period = (sd, ed), student_statistics = stats\<rparr> \<and>
               stats_loop (fetch_students cid s) (fetch_attendance cid sd ed s) [] = Inr stats))"
proof (intro conjI allI impI)
  show "fetch_attendance cid sd ed s =
     take 1000
       (filter (\<lambda>r. a_class_id r = cid \<and>
                    (\<forall>lo. sd = Some lo \<and> lo \<noteq> [] \<longrightarrow> str_le lo (a_date r)) \<and>
                    (\<forall>hi. ed = Some hi \<and> hi \<noteq> [] \<longrightarrow> str_le (a_date r) hi))
          (attendance s))"
    by (simp add: fetch_attendance_def to_list_def find_docs_def matches_report_filter [abs_def])
  show "str_le u t \<longleftrightarrow> u = t \<or> (u, t) \<in> lexord {(a, b). (of_char a :: nat) < of_char b}" for u t
    by (rule str_le_lexord)
  show "\<exists>stats. get_class_report cid sd ed s =
                 Inr \<lparr>class_info = cls, report_period = (sd, ed), student_statistics = stats\<rparr> \<and>
               stats_loop (fetch_students cid s) (fetch_attendance cid sd ed s) [] = Inr stats"
    if "find_one (\<lambda>c. c_id c = cid) (classes s) = Some cls" for cls
    using get_class_report_found [OF that] .
qed

text \<open>
  The claim as stated fails twice: with \<open>end_date = ""\<close> the report keeps all three dated
  records although none has a date \<open>\<le> ""\<close>, and of the 1001 records of one class only 1000
  are kept.
\<close>

theorem report_date_filter_counterexample:
  "fetch_attendance ''c1'' None (Some '''') dated \<noteq>
     filter (\<lambda>r. a_class_id r = ''c1'' \<and> str_le (a_date r) '''') (attendance dated) \<and>
   fetch_attendance ''c1'' None None busy_class \<noteq>
     filter (\<lambda>r. a_class_id r = ''c1'') (attendance busy_class)"
proof (intro conjI)
  show "fetch_attendance ''c1'' None (Some '''') dated \<noteq>
     filter (\<lambda>r. a_class_id r = ''c1'' \<and> str_le (a_date r) '''') (attendance dated)"
    by (simp add: fetch_attendance_def to_list_def find_docs_def matches_report_filter [abs_def]
        dated_def empty_store_def att_def)
  have recs: "attendance busy_class = attendance_roll 1001"
    by (simp add: busy_class_def empty_store_def)
  have "length (fetch_attendance ''c1'' None None busy_class) \<le> 1000"
    by (simp add: fetch_attendance_def to_list_def)
  moreover have "length (filter (\<lambda>r. a_class_id r = ''c1'') (attendance busy_class)) = 1001"
    by (simp only: recs filter_attendance_roll length_attendance_roll)
  ultimately show "fetch_attendance ''c1'' None None busy_class \<noteq>
     filter (\<lambda>r. a_class_id r = ''c1'') (attendance busy_class)"
    by auto
qed

text \<open>The window of the specification's example, and each bound alone.\<close>

theorem report_date_filter_witness:
  "find_one (\<lambda>c. c_id c = ''c1'') (classes dated) = Some class_c1 \<and>
   fetch_attendance ''c1'' (Some ''2024-01-01'') (Some ''2024-01-31'') dated =
     [att ''a1'' ''s1'' ''2024-01-01'' ''present'', att ''a2'' ''s1'' ''2024-01-15'' ''present''] \<and>
   fetch_attendance ''c1'' (Some ''2024-01-15'') None dated =
     [att ''a2'' ''s1'' ''2024-01-15'' ''present'', att ''a3'' ''s1'' ''2024-02-01'' ''present''] \<and>
   fetch_attendance ''c1'' None (Some ''2024-01-15'') dated =
     [att ''a1'' ''s1'' ''2024-01-01'' ''present'', att ''a2'' ''s1'' ''2024-01-15'' ''present''] \<and>
   (\<exists>stats. get_class_report ''c1'' (Some ''2024-01-01'') (Some ''2024-01-31'') dated =
              Inr \<lparr>class_info = class_c1,
                   report_period = (Some ''2024-01-01'', Some ''2024-01-31''),
                   student_statistics = stats\<rparr> \<and>
            stats_loop (fetch_students ''c1'' dated)
              [att ''a1'' ''s1'' ''2024-01-01'' ''present'', att ''a2'' ''s1'' ''2024-01-15'' ''present'']
              [] = Inr stats)"
proof -
  have found: "find_one (\<lambda>c. c_id c = ''c1'') (classes dated) = Some class_c1"
    by (simp add: find_one_def dated_def empty_store_def class_c1_def)
  have recs: "attendance dated =
      [att ''a1'' ''s1'' ''2024-01-01'' ''present'', att ''a2'' ''s1'' ''2024-01-15'' ''present'',
       att ''a3'' ''s1'' ''2024-02-01'' ''present'']"
    by (simp add: dated_def empty_store_def)
  have flds: "a_class_id (att i sid d st) = ''c1''" "a_date (att i sid d st) = d" for i sid d st
    by (simp_all add: att_def)
  note flt = report_date_filter [of "''c1''" _ _ dated]
  have w1: "fetch_attendance ''c1'' (Some ''2024-01-01'') (Some ''2024-01-31'') dated =
     [att ''a1'' ''s1'' ''2024-01-01'' ''present'', att ''a2'' ''s1'' ''2024-01-15'' ''present'']"
    using flt [of "Some ''2024-01-01''" "Some ''2024-01-31''"] by (simp add: recs flds)
  have w2: "fetch_attendance ''c1'' (Some ''2024-01-15'') None dated =
     [att ''a2'' ''s1'' ''2024-01-15'' ''present'', att ''a3'' ''s1'' ''2024-02-01'' ''present'']"
    using flt [of "Some ''2024-01-15''" None] by (simp add: recs flds)
  have w3: "fetch_attendance ''c1'' None (Some ''2024-01-15'') dated =
     [att ''a1'' ''s1'' ''2024-01-01'' ''present'', att ''a2'' ''s1'' ''2024-01-15'' ''present'']"
    using flt [of None "Some ''2024-01-15''"] by (simp add: recs flds)
  have "\<exists>stats. get_class_report ''c1'' (Some ''2024-01-01'') (Some ''2024-01-31'') dated =
              Inr \<lparr>class_info = class_c1,
                   report_period = (Some ''2024-01-01'', Some ''2024-01-31''),
                   student_statistics = stats\<rparr> \<and>
            stats_loop (fetch_students ''c1'' dated)
              (fetch_attendance ''c1'' (Some ''2024-01-01'') (Some ''2024-01-31'') dated) [] = Inr stats"
    using flt [of "Some ''2024-01-01''" "Some ''2024-01-31''"] found by blast
  then show ?thesis using found w1 w2 w3 by simp
qed

section \<open>Bulk marking\<close>

lemma length_mark_each: "length (fst (mark_each ds s)) = length ds"
  by (induction ds arbitrary: s) (auto simp: split_def Let_def)

lemma bulk_loop_well_formed:
  "list_all well_formed items \<Longrightarrow>
   bulk_loop b items acc s =
     (Inr (acc @ fst (mark_each (map (request_of b) items) s)),
      snd (mark_each (map (request_of b) items) s))"
proof (induction items arbitrary: acc s)
  case Nil
  then show ?case by simp
next
  case (Cons item items)
  from Cons.prems obtain sid st where keys: "item ''student_id'' = Some sid" "item ''status'' = Some st"
    by (auto simp: well_formed_def)
  have req: "request_of b item =
      \<lparr>ac_student_id = sid, ac_class_id = b_class_id b, ac_date = b_date b, ac_status = st\<rparr>"
    by (simp add: request_of_def keys)
  from Cons.prems have rest: "list_all well_formed items" by simp
  show ?case
    by (simp add: keys req [symmetric] split_def Let_def Cons.IH [OF rest])
qed

lemma bulk_loop_ill_formed:
  assumes "list_all well_formed pre" "\<not> well_formed bad"
  shows "bulk_loop b (pre @ bad # post) acc s =
     (Inl (KeyError (if bad ''student_id'' = None then ''student_id'' else ''status'')),
      snd (mark_each (map (request_of b) pre) s))"
  using assms(1)
proof (induction pre arbitrary: acc s)
  case Nil
  then show ?case using assms(2) by (auto simp: well_formed_def split: option.splits)
next
  case (Cons item items)
  from Cons.prems obtain sid st where keys: "item ''student_id'' = Some sid" "item ''status'' = Some st"
    by (auto simp: well_formed_def)
  have req: "request_of b item =
      \<lparr>ac_student_id = sid, ac_class_id = b_class_id b, ac_date = b_date b, ac_status = st\<rparr>"
    by (simp add: request_of_def keys)
  from Cons.prems have rest: "list_all well_formed items" by simp
  show ?case
    by (simp add: keys req [symmetric] split_def Let_def Cons.IH [OF rest])
qed

text \<open>
  Claim C7. When every item holds both keys, the bulk handler returns the message with
  the count \<open>N\<close> of the items and the \<open>N\<close> records that marking the items one by one, in list
  order, returns, and leaves the store those marks leave. When an item lacks a key, the
  handler fails with \<open>KeyError\<close> and the store is the one the marks of the items before it
  left: nothing is rolled back.
\<close>

theorem mark_bulk_attendance_in_order:
  "(list_all well_formed (b_attendance_records b) \<longrightarrow>
      mark_bulk_attendance b s =
        (Inr \<lparr>message = ''Marked attendance for '' @ str_nat (length (b_attendance_records b)) @
                         '' students'',
              records = fst (mark_each (map (request_of b) (b_attendance_records b)) s)\<rparr>,
         snd (mark_each (map (request_of b) (b_attendance_records b)) s)) \<and>
      length (fst (mark_each (map (request_of b) (b_attendance_records b)) s)) =
        length (b_attendance_records b)) \<and>
   (\<forall>pre bad post.
      b_attendance_records b = pre @ bad # post \<and> list_all well_formed pre \<and> \<not> well_formed bad \<longrightarrow>
      mark_bulk_attendance b s =
        (Inl (KeyError (if bad ''student_id'' = None then ''student_id'' else ''status'')),
         snd (mark_each (map (request_of b) pre) s)))"
proof (intro conjI allI impI)
  assume wf: "list_all well_formed (b_attendance_records b)"
  show "mark_bulk_attendance b s =
        (Inr \<lparr>message = ''Marked attendance for '' @ str_nat (length (b_attendance_records b)) @
                         '' students'',
              records = fst (mark_each (map (request_of b) (b_attendance_records b)) s)\<rparr>,
         snd (mark_each (map (request_of b) (b_attendance_records b)) s))"
    by (simp add: mark_bulk_attendance_def bulk_loop_well_formed [OF wf] length_mark_each)
  show "length (fst (mark_each (map (request_of b) (b_attendance_records b)) s)) =
        length (b_attendance_records b)"
    by (simp add: length_mark_each)
next
  fix pre bad post
  assume h: "b_attendance_records b = pre @ bad # post \<and> list_all well_formed pre \<and> \<not> well_formed bad"
  then have "list_all well_formed pre" "\<not> well_formed bad" by simp_all
  from bulk_loop_ill_formed [OF this]
  show "mark_bulk_attendance b s =
        (Inl (KeyError (if bad ''student_id'' = None then ''student_id'' else ''status'')),
         snd (mark_each (map (request_of b) pre) s))"
    using h by (simp add: mark_bulk_attendance_def)
qed

text \<open>Two students marked in bulk on the empty store.\<close>

lemma mark_two:
  "mark_each
     [\<lparr>ac_student_id = ''s1'', ac_class_id = ''c1'', ac_date = ''2024-01-15'', ac_status = ''present''\<rparr>,
      \<lparr>ac_student_id = ''s2'', ac_class_id = ''c1'', ac_date = ''2024-01-15'', ac_status = ''late''\<rparr>]
     empty_store =
   ([\<lparr>a_id = ''uuid-0'', a_student_id = ''s1'', a_class_id = ''c1'', a_date = ''2024-01-15'',
      a_status = ''present'', a_marked_at = 1000\<rparr>,
     \<lparr>a_id = ''uuid-1'', a_student_id = ''s2'', a_class_id = ''c1'', a_date = ''2024-01-15'',
      a_status = ''late'', a_marked_at = 1002\<rparr>],
    empty_store
      \<lparr>attendance :=
         [\<lparr>a_id = ''uuid-0'', a_student_id = ''s1'', a_class_id = ''c1'', a_date = ''2024-01-15'',
           a_status = ''present'', a_marked_at = 1001\<rparr>,
          \<lparr>a_id = ''uuid-1'', a_student_id = ''s2'', a_class_id = ''c1'', a_date = ''2024-01-15'',
           a_status = ''late'', a_marked_at = 1003\<rparr>],
       uuid_calls := 2, clock_calls := 4\<rparr>)"
  by (simp add: mark_attendance_def empty_store_def find_one_def same_triple_def uuid4_def
      utcnow_def insert_one_def str_nat.simps digit_char_def numeral_2_eq_2 eval_nat_numeral)

text \<open>A bulk request of two items, and one whose second item of three has no \<open>status\<close>:
  the first mark stays stored, the third is never made.\<close>

theorem mark_bulk_attendance_in_order_witness:
  "list_all well_formed (b_attendance_records bulk_two) \<and>
   fst (mark_bulk_attendance bulk_two empty_store) =
     Inr \<lparr>message = ''Marked attendance for 2 students'',
          records =
            [\<lparr>a_id = ''uuid-0'', a_student_id = ''s1'', a_class_id = ''c1'', a_date = ''2024-01-15'',
              a_status = ''present'', a_marked_at = 1000\<rparr>,
             \<lparr>a_id = ''uuid-1'', a_student_id = ''s2'', a_class_id = ''c1'', a_date = ''2024-01-15'',
              a_status = ''late'', a_marked_at = 1002\<rparr>]\<rparr> \<and>
   map a_student_id (attendance (snd (mark_bulk_attendance bulk_two empty_store))) = [''s1'', ''s2''] \<and>
   b_attendance_records bulk_broken =
     [[''student_id'' \<mapsto> ''s1'', ''status'' \<mapsto> ''present'']] @
     [''student_id'' \<mapsto> ''s2''] # [[''student_id'' \<mapsto> ''s3'', ''status'' \<mapsto> ''late'']] \<and>
   list_all well_formed [[''student_id'' \<mapsto> ''s1'', ''status'' \<mapsto> ''present'']] \<and>
   \<not> well_formed [''student_id'' \<mapsto> ''s2''] \<and>
   fst (mark_bulk_attendance bulk_broken empty_store) = Inl (KeyError ''status'') \<and>
   attendance (snd (mark_bulk_attendance bulk_broken empty_store)) =
     [\<lparr>a_id = ''uuid-0'', a_student_id = ''s1'', a_class_id = ''c1'', a_date = ''2024-01-15'',
       a_status = ''present'', a_marked_at = 1001\<rparr>]"
proof -
  have wf2: "list_all well_formed (b_attendance_records bulk_two)"
    by (simp add: bulk_two_def well_formed_def)
  have split: "b_attendance_records bulk_broken =
     [[''student_id'' \<mapsto> ''s1'', ''status'' \<mapsto> ''present'']] @
     [''student_id'' \<mapsto> ''s2''] # [[''student_id'' \<mapsto> ''s3'', ''status'' \<mapsto> ''late'']]"
    by (simp add: bulk_broken_def)
  have wf1: "list_all well_formed [[''student_id'' \<mapsto> ''s1'', ''status'' \<mapsto> ''present'']]"
    and bad: "\<not> well_formed [''student_id'' \<mapsto> ''s2'']"
    by (simp_all add: well_formed_def)
  have ok: "mark_bulk_attendance bulk_two empty_store =
        (Inr \<lparr>message = ''Marked attendance for '' @ str_nat (length (b_attendance_records bulk_two)) @
                         '' students'',
              records = fst (mark_each (map (request_of bulk_two) (b_attendance_records bulk_two)) empty_store)\<rparr>,
         snd (mark_each (map (request_of bulk_two) (b_attendance_records bulk_two)) empty_store))"
    using mark_bulk_attendance_in_order [of bulk_two empty_store] wf2 by blast
  have ko: "mark_bulk_attendance bulk_broken empty_store =
        (Inl (KeyError (if [''student_id'' \<mapsto> ''s2''] ''student_id'' = None then ''student_id'' else ''status'')),
         snd (mark_each (map (request_of bulk_broken)
                [[''student_id'' \<mapsto> ''s1'', ''status'' \<mapsto> ''present'']]) empty_store))"
    using mark_bulk_attendance_in_order [of bulk_broken empty_store] split wf1 bad by blast
  have reqs: "map (request_of bulk_two) (b_attendance_records bulk_two) =
     [\<lparr>ac_student_id = ''s1'', ac_class_id = ''c1'', ac_date = ''2024-01-15'', ac_status = ''present''\<rparr>,
      \<lparr>ac_student_id = ''s2'', ac_class_id = ''c1'', ac_date = ''2024-01-15'', ac_status = ''late''\<rparr>]"
    by (simp add: bulk_two_def request_of_def)
  have req1: "map (request_of bulk_broken) [[''student_id'' \<mapsto> ''s1'', ''status'' \<mapsto> ''present'']] =
     [\<lparr>ac_student_id = ''s1'', ac_class_id = ''c1'', ac_date = ''2024-01-15'', ac_status = ''present''\<rparr>]"
    by (simp add: bulk_broken_def request_of_def)
  have len: "length (b_attendance_records bulk_two) = 2"
    by (simp add: bulk_two_def)
  have two: "str_nat 2 = ''2''"
    by (simp add: str_nat.simps digit_char_def)
  have one: "mark_each
     [\<lparr>ac_student_id = ''s1'', ac_class_id = ''c1'', ac_date = ''2024-01-15'', ac_status = ''present''\<rparr>]
     empty_store =
     ([\<lparr>a_id = ''uuid-0'', a_student_id = ''s1'', a_class_id = ''c1'', a_date = ''2024-01-15'',
        a_status = ''present'', a_marked_at = 1000\<rparr>],
      empty_store
        \<lparr>attendance :=
           [\<lparr>a_id = ''uuid-0'', a_student_id = ''s1'', a_class_id = ''c1'', a_date = ''2024-01-15'',
             a_status = ''present'', a_marked_at = 1001\<rparr>],
         uuid_calls := 1, clock_calls := 2\<rparr>)"
    by (simp add: mark_attendance_def empty_store_def find_one_def same_triple_def uuid4_def
        utcnow_def insert_one_def str_nat.simps digit_char_def numeral_2_eq_2)
  show ?thesis
    unfolding ok ko reqs req1 len two mark_two one
    using wf2 split wf1 bad by simp
qed

section \<open>The statistics of the report\<close>

lemma student_entry_eq:
  "student_entry st recs =
     Inr \<lparr>student_name = s_name st,
          roll_number = s_roll_number st,
          total_days = length (filter (\<lambda>r. a_student_id r = s_id st) recs),
          present = length (filter (\<lambda>r. a_student_id r = s_id st \<and> a_status r = ''present'') recs),
          absent = length (filter (\<lambda>r. a_student_id r = s_id st \<and> a_status r = ''absent'') recs),
          late = length (filter (\<lambda>r. a_student_id r = s_id st \<and> a_status r = ''late'') recs),
          attendance_percentage =
            (if 0 < length (filter (\<lambda>r. a_student_id r = s_id st) recs)
             then PyFloat (round_float (float_mul_int
                    (nearest_float
                       (length (filter (\<lambda>r. a_student_id r = s_id st \<and> a_status r = ''present'') recs))
                       (length (filter (\<lambda>r. a_student_id r = s_id st) recs))) 100) 2)
             else PyInt 0)\<rparr>"
  by (auto simp: student_entry_def Let_def true_div_def py_round_def conj_commute filter_empty_conv)

lemma update_member:
  "(a, b) \<in> set (AList.update k v al) \<Longrightarrow> (a, b) = (k, v) \<or> (a, b) \<in> set al"
  by (induction al) (auto split: if_splits)

lemma length_update_le: "length (AList.update k v al) \<le> Suc (length al)"
  by (induction al) auto

lemma stats_loop_entries:
  "stats_loop sts recs acc = Inr stats \<Longrightarrow> (sid, e) \<in> set stats \<Longrightarrow>
   (sid, e) \<in> set acc \<or> (\<exists>st\<in>set sts. s_id st = sid \<and> student_entry st recs = Inr e)"
proof (induction sts arbitrary: acc)
  case Nil
  then show ?case by simp
next
  case (Cons st sts)
  obtain v where v: "student_entry st recs = Inr v"
    using student_entry_total by blast
  with Cons.prems have "stats_loop sts recs (AList.update (s_id st) v acc) = Inr stats"
    by simp
  from Cons.IH [OF this Cons.prems(2)] show ?case
    using v update_member [of sid e "s_id st" v acc] by auto
qed

lemma stats_loop_keys:
  "stats_loop sts recs acc = Inr stats \<Longrightarrow> fst ` set stats = fst ` set acc \<union> s_id ` set sts"
proof (induction sts arbitrary: acc)
  case Nil
  then show ?case by simp
next
  case (Cons st sts)
  obtain v where v: "student_entry st recs = Inr v"
    using student_entry_total by blast
  with Cons.prems have "stats_loop sts recs (AList.update (s_id st) v acc) = Inr stats"
    by simp
  from Cons.IH [OF this] show ?case
    by (simp add: dom_update)
qed

lemma stats_loop_distinct:
  "stats_loop sts recs acc = Inr stats \<Longrightarrow> distinct (map fst acc) \<Longrightarrow> distinct (map fst stats)"
proof (induction sts arbitrary: acc)
  case Nil
  then show ?case by simp
next
  case (Cons st sts)
  obtain v where v: "student_entry st recs = Inr v"
    using student_entry_total by blast
  with Cons.prems have "stats_loop sts recs (AList.update (s_id st) v acc) = Inr stats"
    by simp
  from Cons.IH [OF this] Cons.prems(2) show ?case
    by (simp add: distinct_update)
qed

lemma stats_loop_length:
  "stats_loop sts recs acc = Inr stats \<Longrightarrow> length stats \<le> length acc + length sts"
proof (induction sts arbitrary: acc)
  case Nil
  then show ?case by simp
next
  case (Cons st sts)
  obtain v where v: "student_entry st recs = Inr v"
    using student_entry_total by blast
  with Cons.prems have "stats_loop sts recs (AList.update (s_id st) v acc) = Inr stats"
    by simp
  from Cons.IH [OF this] length_update_le [of "s_id st" v acc] show ?case
    by simp
qed

lemma report_stats:
  assumes "get_class_report cid sd ed s = Inr r"
  shows "stats_loop (fetch_students cid s) (fetch_attendance cid sd ed s) [] =
           Inr (student_statistics r)"
proof (cases rule: find_one_cases [of "\<lambda>c. c_id c = cid" "classes s"])
  case absent
  then show ?thesis using assms by (simp add: get_class_report_def)
next
  case (present cls)
  from get_class_report_found [OF present(1), of sd ed] assms show ?thesis by auto
qed

lemma report_entry:
  assumes "get_class_report cid sd ed s = Inr r" "(sid, e) \<in> set (student_statistics r)"
  shows "\<exists>st\<in>set (fetch_students cid s). s_id st = sid \<and>
           student_entry st (fetch_attendance cid sd ed s) = Inr e"
  using stats_loop_entries [OF report_stats [OF assms(1)] assms(2)] by simp

lemma report_lookup:
  assumes "get_class_report cid sd ed s = Inr r" "st \<in> set (fetch_students cid s)"
  shows "\<exists>e. map_of (student_statistics r) (s_id st) = Some e \<and>
             (s_id st, e) \<in> set (student_statistics r)"
proof -
  have "s_id st \<in> fst ` set (student_statistics r)"
    using stats_loop_keys [OF report_stats [OF assms(1)]] assms(2) by simp
  then obtain e where "map_of (student_statistics r) (s_id st) = Some e"
    by (metis map_of_eq_None_iff not_Some_eq)
  then show ?thesis using map_of_SomeD by fastforce
qed

lemma count_by_status:
  "length (filter P xs) =
     length (filter (\<lambda>x. P x \<and> f x = a) xs) + length (filter (\<lambda>x. P x \<and> f x = b) xs) +
     length (filter (\<lambda>x. P x \<and> f x = c) xs) +
     length (filter (\<lambda>x. P x \<and> f x \<noteq> a \<and> f x \<noteq> b \<and> f x \<noteq> c) xs)"
  if "a \<noteq> b" "a \<noteq> c" "b \<noteq> c"
  using that by (induction xs) auto

lemma report_entry_counts:
  assumes "get_class_report cid sd ed s = Inr r"
    and "(sid, e) \<in> set (student_statistics r)"
  shows "total_days e =
           length (filter (\<lambda>x. a_student_id x = sid) (fetch_attendance cid sd ed s))"
    and "present e =
           length (filter (\<lambda>x. a_student_id x = sid \<and> a_status x = ''present'')
                     (fetch_attendance cid sd ed s))"
    and "absent e =
           length (filter (\<lambda>x. a_student_id x = sid \<and> a_status x = ''absent'')
                     (fetch_attendance cid sd ed s))"
    and "late e =
           length (filter (\<lambda>x. a_student_id x = sid \<and> a_status x = ''late'')
                     (fetch_attendance cid sd ed s))"
proof -
  obtain st where st: "s_id st = sid" "student_entry st (fetch_attendance cid sd ed s) = Inr e"
    using report_entry [OF assms] by blast
  show "total_days e =
           length (filter (\<lambda>x. a_student_id x = sid) (fetch_attendance cid sd ed s))"
    and "present e =
           length (filter (\<lambda>x. a_student_id x = sid \<and> a_status x = ''present'')
                     (fetch_attendance cid sd ed s))"
    and "absent e =
           length (filter (\<lambda>x. a_student_id x = sid \<and> a_status x = ''absent'')
                     (fetch_attendance cid sd ed s))"
    and "late e =
           length (filter (\<lambda>x. a_student_id x = sid \<and> a_status x = ''late'')
                     (fetch_attendance cid sd ed s))"
    using st(2) unfolding student_entry_eq st(1) by auto
qed

text \<open>
  Claim C4. For every entry of the report, \<open>total_days\<close> is the number of the fetched
  records of that student, whatever their status, and \<open>present\<close>, \<open>absent\<close> and \<open>late\<close> count the
  fetched records whose status is exactly that string. A record with any other status
  is counted in \<open>total_days\<close> and in none of the three.
\<close>

theorem report_counts:
  assumes "get_class_report cid sd ed s = Inr r"
    and "(sid, e) \<in> set (student_statistics r)"
  shows "total_days e =
           length (filter (\<lambda>x. a_student_id x = sid) (fetch_attendance cid sd ed s)) \<and>
         present e =
           length (filter (\<lambda>x. a_student_id x = sid \<and> a_status x = ''present'')
                     (fetch_attendance cid sd ed s)) \<and>
         absent e =
           length (filter (\<lambda>x. a_student_id x = sid \<and> a_status x = ''absent'')
                     (fetch_attendance cid sd ed s)) \<and>
         late e =
           length (filter (\<lambda>x. a_student_id x = sid \<and> a_status x = ''late'')
                     (fetch_attendance cid sd ed s)) \<and>
         total_days e =
           present e + absent e + late e +
           length (filter (\<lambda>x. a_student_id x = sid \<and> a_status x \<noteq> ''present'' \<and>
                               a_status x \<noteq> ''absent'' \<and> a_status x \<noteq> ''late'')
                     (fetch_attendance cid sd ed s))"
proof -
  note e = report_entry_counts [OF assms]
  show ?thesis
    unfolding e
    using count_by_status [where a = "''present''" and b = "''absent''" and c = "''late''"
        and P = "\<lambda>x. a_student_id x = sid" and f = a_status
        and xs = "fetch_attendance cid sd ed s"]
    by simp
qed

lemma school_students: "fetch_students ''c1'' school = [alice, bob, carol]"
  by (simp add: fetch_students_def to_list_def find_docs_def school_def empty_store_def
      alice_def bob_def carol_def)

lemma school_attendance:
  "fetch_attendance ''c1'' None None school =
     [att ''a1'' ''s1'' ''2024-01-01'' ''present'',
      att ''a2'' ''s1'' ''2024-01-02'' ''present'',
      att ''a3'' ''s1'' ''2024-01-03'' ''absent'',
      att ''a4'' ''s1'' ''2024-01-04'' ''late'',
      att ''a5'' ''s1'' ''2024-01-05'' ''present'',
      att ''a6'' ''s3'' ''2024-01-01'' ''present'',
      att ''a7'' ''s3'' ''2024-01-15'' ''excused'',
      att ''a8'' ''s3'' ''2024-02-01'' ''late'']"
  by (simp add: fetch_attendance_def to_list_def find_docs_def matches_report_filter [abs_def]
      school_def empty_store_def att_def)

lemma school_class: "find_one (\<lambda>c. c_id c = ''c1'') (classes school) = Some class_c1"
  by (simp add: find_one_def school_def empty_store_def class_c1_def)

lemma att_fields:
  "a_student_id (att i sid d st) = sid" "a_status (att i sid d st) = st"
  "a_class_id (att i sid d st) = ''c1''" "a_date (att i sid d st) = d"
  by (simp_all add: att_def)

text \<open>Carol has three records, one of them with the status \<open>excused\<close>.\<close>

theorem report_counts_witness:
  "\<exists>r e. get_class_report ''c1'' None None school = Inr r \<and>
         (''s3'', e) \<in> set (student_statistics r) \<and>
         total_days e = 3 \<and> present e = 1 \<and> absent e = 0 \<and> late e = 1"
proof -
  obtain stats where r: "get_class_report ''c1'' None None school =
      Inr \<lparr>class_info = class_c1, report_period = (None, None), student_statistics = stats\<rparr>"
    using get_class_report_found [OF school_class, of None None] by blast
  have "carol \<in> set (fetch_students ''c1'' school)" by (simp add: school_students)
  from report_lookup [OF r this] obtain e where
    e: "(''s3'', e) \<in> set stats" by (auto simp: carol_def)
  then have mem: "(''s3'', e) \<in> set (student_statistics
      \<lparr>class_info = class_c1, report_period = (None, None), student_statistics = stats\<rparr>)"
    by simp
  from report_counts [OF r mem]
  have "total_days e = 3 \<and> present e = 1 \<and> absent e = 0 \<and> late e = 1"
    by (simp add: school_attendance att_fields)
  with r e show ?thesis by auto
qed

section \<open>Accuracy of the binary64 operations\<close>

text \<open>
  \<open>nearest_float a b\<close> has a relative error of at most \<open>2\<^sup>-\<^sup>5\<^sup>3\<close> against the exact quotient:
  the exponent it picks puts the scaled quotient at or above \<open>2\<^sup>5\<^sup>2\<close>, and rounding the scaled
  quotient to an integer moves it by at most one half.
\<close>

lemma float_val_powi: "float_val x = of_nat (mant x) * 2 powi expo x"
proof (cases "0 \<le> expo x")
  case True
  then show ?thesis by (simp add: float_val_def power_int_def)
next
  case False
  have "of_nat (mant x) / 2 ^ nat (- expo x) = of_nat (mant x) * inverse (2 :: rat) ^ nat (- expo x)"
    by (simp only: divide_inverse power_inverse)
  with False show ?thesis by (simp only: float_val_def power_int_def if_False)
qed

lemma bit_length_upper: "n < 2 ^ bit_length n"
proof (induction n rule: bit_length.induct)
  case (1 n)
  show ?case
  proof (cases "n = 0")
    case True
    then show ?thesis by (simp add: bit_length.simps)
  next
    case False
    from "1.IH" [OF False] have "n div 2 < 2 ^ bit_length (n div 2)" .
    then have "n < 2 * 2 ^ bit_length (n div 2)" by linarith
    with False show ?thesis by (simp add: bit_length.simps [of n])
  qed
qed

lemma bit_length_lower: "0 < n \<Longrightarrow> 2 ^ bit_length n \<le> 2 * n"
proof (induction n rule: bit_length.induct)
  case (1 n)
  then have pos: "n \<noteq> 0" by simp
  show ?case
  proof (cases "n div 2 = 0")
    case True
    with pos have "n = 1" by linarith
    then show ?thesis by (simp add: bit_length.simps)
  next
    case False
    then have "0 < n div 2" by simp
    from "1.IH" [OF pos this] have "2 ^ bit_length (n div 2) \<le> 2 * (n div 2)" .
    then have "2 * 2 ^ bit_length (n div 2) \<le> 2 * n" by linarith
    with pos show ?thesis by (simp add: bit_length.simps [of n])
  qed
qed

lemma div_half_even_bounds:
  assumes "0 < b"
  shows "2 * (div_half_even a b * b) \<le> 2 * a + b \<and> 2 * a \<le> 2 * (div_half_even a b * b) + b"
proof -
  have a: "a = (a div b) * b + a mod b" by simp
  have r: "a mod b < b" using assms by simp
  define q where "q = a div b"
  define m where "m = a mod b"
  have a': "a = q * b + m" and r': "m < b" using a r by (simp_all add: q_def m_def)
  have cases: "div_half_even a b = q \<and> 2 * m \<le> b \<or> div_half_even a b = q + 1 \<and> b \<le> 2 * m"
    by (auto simp: div_half_even_def Let_def q_def m_def)
  then show ?thesis
  proof
    assume "div_half_even a b = q \<and> 2 * m \<le> b"
    then show ?thesis using a' by simp
  next
    assume "div_half_even a b = q + 1 \<and> b \<le> 2 * m"
    then show ?thesis using a' r' by (simp add: algebra_simps)
  qed
qed

lemma div_half_even_error:
  assumes "0 < b"
  shows "\<bar>of_nat (div_half_even a b) - of_nat a / of_nat b\<bar> \<le> (1 / 2 :: rat)"
proof -
  define q where "q = div_half_even a b"
  from div_half_even_bounds [OF assms, of a]
  have "2 * (q * b) \<le> 2 * a + b" "2 * a \<le> 2 * (q * b) + b" by (simp_all add: q_def)
  then have "(of_nat (2 * (q * b)) :: rat) \<le> of_nat (2 * a + b)"
    "(of_nat (2 * a) :: rat) \<le> of_nat (2 * (q * b) + b)"
    by (simp_all only: of_nat_le_iff)
  then have le: "2 * (of_nat q * of_nat b) \<le> 2 * of_nat a + (of_nat b :: rat)"
    "2 * of_nat a \<le> 2 * (of_nat q * of_nat b) + (of_nat b :: rat)"
    by simp_all
  have bpos: "(0 :: rat) < of_nat b" using assms by simp
  have "of_nat q - of_nat a / of_nat b = (of_nat q * of_nat b - of_nat a) / (of_nat b :: rat)"
    using bpos by (simp add: field_simps)
  moreover have "\<bar>of_nat q * of_nat b - of_nat a\<bar> \<le> (of_nat b :: rat) / 2"
    using le by linarith
  ultimately have "\<bar>of_nat q - of_nat a / of_nat b\<bar> \<le> ((of_nat b :: rat) / 2) / of_nat b"
    using bpos by (simp add: divide_right_mono)
  then show ?thesis using bpos by (simp add: q_def)
qed

lemma two_powi_neg:
  assumes "e < 0"
  shows "(2 :: rat) powi e = 1 / 2 ^ nat (- e)"
proof -
  have "(2 :: rat) powi e = 2 powi (- (- e))" by simp
  also have "\<dots> = 1 / 2 powi (- e)" by (rule power_int_minus_divide)
  also have "(2 :: rat) powi (- e) = 2 ^ nat (- e)"
    using assms by (intro power_int_nonneg_exp) simp
  finally show ?thesis .
qed

lemma two_powi_nonneg: "0 \<le> e \<Longrightarrow> (2 :: rat) powi e = 2 ^ nat e"
  by (rule power_int_nonneg_exp)

lemma ratio_lower:
  assumes "0 < a" "0 < b"
  shows "(2 :: rat) powi (int (bit_length a) - int (bit_length b) - 1) \<le> of_nat a / of_nat b"
proof -
  define A :: rat where "A = 2 ^ bit_length a"
  define B :: rat where "B = 2 ^ bit_length b"
  have "2 ^ bit_length a \<le> 2 * a" using bit_length_lower [OF assms(1)] .
  then have "(of_nat (2 ^ bit_length a) :: rat) \<le> of_nat (2 * a)" by (simp only: of_nat_le_iff)
  then have a: "A / 2 \<le> of_nat a" by (simp add: A_def)
  have "b < 2 ^ bit_length b" by (rule bit_length_upper)
  then have "(of_nat b :: rat) < of_nat (2 ^ bit_length b)" by (simp only: of_nat_less_iff)
  then have b: "(of_nat b :: rat) \<le> B" by (simp add: B_def)
  have bpos: "(0 :: rat) < of_nat b" using assms(2) by simp
  have apos: "(0 :: rat) \<le> of_nat a" by simp
  have "(2 :: rat) powi (int (bit_length a) - int (bit_length b) - 1) =
      2 powi (int (bit_length a) - int (bit_length b)) / 2 powi 1"
    by (rule power_int_diff) simp
  also have "2 powi (int (bit_length a) - int (bit_length b)) =
      (2 :: rat) powi int (bit_length a) / 2 powi int (bit_length b)"
    by (rule power_int_diff) simp
  finally have "(2 :: rat) powi (int (bit_length a) - int (bit_length b) - 1) = (A / 2) / B"
    by (simp add: A_def B_def)
  also have "\<dots> \<le> of_nat a / of_nat b"
    using apos a bpos b by (rule frac_le)
  finally show ?thesis .
qed

lemma ratio_upper:
  assumes "0 < a" "0 < b"
  shows "(of_nat a / of_nat b :: rat) < 2 powi (int (bit_length a) - int (bit_length b) + 1)"
proof -
  define A :: rat where "A = 2 ^ bit_length a"
  define B :: rat where "B = 2 ^ bit_length b"
  have "a < 2 ^ bit_length a" by (rule bit_length_upper)
  then have "(of_nat a :: rat) < of_nat (2 ^ bit_length a)" by (simp only: of_nat_less_iff)
  then have a: "(of_nat a :: rat) < A" by (simp add: A_def)
  have "2 ^ bit_length b \<le> 2 * b" using bit_length_lower [OF assms(2)] .
  then have "(of_nat (2 ^ bit_length b) :: rat) \<le> of_nat (2 * b)" by (simp only: of_nat_le_iff)
  then have b: "B / 2 \<le> of_nat b" by (simp add: B_def)
  have Bpos: "0 < B / 2" by (simp add: B_def)
  have apos: "(0 :: rat) \<le> of_nat a" by simp
  have "(of_nat a :: rat) / of_nat b < A / (B / 2)"
    using apos a Bpos b by (rule frac_less)
  also have "A / (B / 2) = (A / B) * 2" by simp
  also have "A / B = (2 :: rat) powi (int (bit_length a) - int (bit_length b))"
    unfolding A_def B_def by (subst power_int_diff) simp_all
  also have "(2 :: rat) powi (int (bit_length a) - int (bit_length b)) * 2 =
      2 powi (int (bit_length a) - int (bit_length b) + 1)"
    by (subst power_int_add) simp_all
  finally show ?thesis .
qed

lemma nearest_float_shape:
  assumes "0 < a" "0 < b"
  shows "\<exists>q e. nearest_float a b =
                 (if q = 2 ^ 53 then \<lparr>mant = 2 ^ 52, expo = e + 1\<rparr> else \<lparr>mant = q, expo = e\<rparr>) \<and>
               float_val (nearest_float a b) = of_nat q * 2 powi e \<and>
               \<bar>of_nat q - (of_nat a / of_nat b) / 2 powi e\<bar> \<le> (1 / 2 :: rat) \<and>
               2 powi (e + 52) \<le> (of_nat a / of_nat b :: rat) \<and>
               (of_nat a / of_nat b :: rat) < 2 powi (e + 53)"
proof -
  define k where "k = int (bit_length a) - int (bit_length b)"
  define above where "above = (if 0 \<le> k then b * 2 ^ nat k \<le> a else b \<le> a * 2 ^ nat (- k))"
  define e where "e = (if above then k else k - 1) - 52"
  define q where "q = (if 0 \<le> e then div_half_even a (b * 2 ^ nat e)
                 else div_half_even (a * 2 ^ nat (- e)) b)"
  define r :: rat where "r = of_nat a / of_nat b"
  have bpos: "(0 :: rat) < of_nat b" using assms(2) by simp
  have nf: "nearest_float a b =
      (if q = 2 ^ 53 then \<lparr>mant = 2 ^ 52, expo = e + 1\<rparr> else \<lparr>mant = q, expo = e\<rparr>)"
  proof -
    have "(a = 0) = False" using assms(1) by simp
    then show ?thesis
      by (simp only: nearest_float_def Let_def k_def above_def e_def q_def if_False)
  qed
  have val: "float_val (nearest_float a b) = of_nat q * 2 powi e"
  proof (cases "q = 2 ^ 53")
    case True
    then have "nearest_float a b = \<lparr>mant = 2 ^ 52, expo = e + 1\<rparr>"
      using nf by simp
    then have "float_val (nearest_float a b) = of_nat (2 ^ 52) * 2 powi (e + 1)"
      by (simp only: float_val_powi float64.select_convs)
    also have "(2 :: rat) powi (e + 1) = 2 powi e * 2 powi 1" by (rule power_int_add) simp
    also have "of_nat (2 ^ 52) * ((2 :: rat) powi e * 2 powi 1) = of_nat (2 ^ 53) * 2 powi e"
      by simp
    finally show ?thesis by (simp only: True)
  next
    case False
    then have "nearest_float a b = \<lparr>mant = q, expo = e\<rparr>"
      using nf by simp
    then show ?thesis
      by (simp only: float_val_powi float64.select_convs)
  qed
  have lower: "2 powi (e + 52) \<le> r"
  proof (cases above)
    case True
    then have e: "e + 52 = k" by (simp add: e_def)
    show ?thesis
    proof (cases "0 \<le> k")
      case nonneg: True
      with True have "b * 2 ^ nat k \<le> a" by (simp add: above_def)
      then have "(of_nat (b * 2 ^ nat k) :: rat) \<le> of_nat a" by (simp only: of_nat_le_iff)
      then have "(2 :: rat) ^ nat k * of_nat b \<le> of_nat a" by (simp add: mult.commute)
      then have "(2 :: rat) ^ nat k \<le> r"
        unfolding r_def using bpos by (simp only: pos_le_divide_eq)
      then show ?thesis by (simp only: e two_powi_nonneg [OF nonneg])
    next
      case neg: False
      then have neg': "k < 0" by simp
      from True neg have "b \<le> a * 2 ^ nat (- k)" by (simp add: above_def)
      then have "(of_nat b :: rat) \<le> of_nat (a * 2 ^ nat (- k))" by (simp only: of_nat_le_iff)
      then have "(of_nat b :: rat) \<le> of_nat a * 2 ^ nat (- k)" by simp
      then have "(of_nat b :: rat) / 2 ^ nat (- k) \<le> of_nat a"
        by (simp only: pos_divide_le_eq zero_less_power zero_less_numeral)
      then have "((of_nat b :: rat) / 2 ^ nat (- k)) / of_nat b \<le> of_nat a / of_nat b"
        using bpos by (intro divide_right_mono) simp_all
      moreover have "((of_nat b :: rat) / 2 ^ nat (- k)) / of_nat b = 1 / 2 ^ nat (- k)"
        using bpos by simp
      ultimately have "1 / (2 :: rat) ^ nat (- k) \<le> r" by (simp only: r_def)
      then show ?thesis by (simp only: e two_powi_neg [OF neg'])
    qed
  next
    case False
    then have "e + 52 = k - 1" by (simp add: e_def)
    then show ?thesis using ratio_lower [OF assms] by (simp only: k_def r_def)
  qed
  have qerr: "\<bar>of_nat q - r / 2 powi e\<bar> \<le> (1 / 2 :: rat)"
  proof (cases "0 \<le> e")
    case True
    then have q: "q = div_half_even a (b * 2 ^ nat e)" by (simp add: q_def)
    have "0 < b * 2 ^ nat e" using assms(2) by simp
    from div_half_even_error [OF this, of a]
    have "\<bar>of_nat q - of_nat a / (of_nat (b * 2 ^ nat e) :: rat)\<bar> \<le> 1 / 2" by (simp only: q)
    moreover have "of_nat a / (of_nat (b * 2 ^ nat e) :: rat) = r / 2 ^ nat e"
      by (simp add: r_def)
    ultimately show ?thesis by (simp only: two_powi_nonneg [OF True])
  next
    case False
    then have neg: "e < 0" by simp
    from False have q: "q = div_half_even (a * 2 ^ nat (- e)) b" by (simp add: q_def)
    from div_half_even_error [OF assms(2), of "a * 2 ^ nat (- e)"]
    have "\<bar>of_nat q - of_nat (a * 2 ^ nat (- e)) / (of_nat b :: rat)\<bar> \<le> 1 / 2" by (simp only: q)
    moreover have "of_nat (a * 2 ^ nat (- e)) / (of_nat b :: rat) = r / (1 / 2 ^ nat (- e))"
      by (simp add: r_def)
    ultimately show ?thesis by (simp only: two_powi_neg [OF neg])
  qed
  have upper: "r < 2 powi (e + 53)"
  proof (cases above)
    case True
    then have "e + 53 = k + 1" by (simp add: e_def)
    then show ?thesis using ratio_upper [OF assms] by (simp only: k_def r_def)
  next
    case False
    then have e: "e + 53 = k" by (simp add: e_def)
    show ?thesis
    proof (cases "0 \<le> k")
      case nonneg: True
      with False have "a < b * 2 ^ nat k" by (simp add: above_def)
      then have "(of_nat a :: rat) < of_nat (b * 2 ^ nat k)" by (simp only: of_nat_less_iff)
      then have "(of_nat a :: rat) < 2 ^ nat k * of_nat b" by (simp add: mult.commute)
      then have "r < 2 ^ nat k"
        unfolding r_def using bpos by (simp only: pos_divide_less_eq)
      then show ?thesis by (simp only: e two_powi_nonneg [OF nonneg])
    next
      case neg: False
      then have neg': "k < 0" by simp
      from False neg have "a * 2 ^ nat (- k) < b" by (simp add: above_def)
      then have "(of_nat (a * 2 ^ nat (- k)) :: rat) < of_nat b" by (simp only: of_nat_less_iff)
      then have "(of_nat a :: rat) * 2 ^ nat (- k) < of_nat b" by simp
      then have "(of_nat a :: rat) < of_nat b / 2 ^ nat (- k)"
        by (simp only: pos_less_divide_eq zero_less_power zero_less_numeral)
      then have "(of_nat a :: rat) / of_nat b < (of_nat b / 2 ^ nat (- k)) / of_nat b"
        using bpos by (intro divide_strict_right_mono) simp_all
      moreover have "((of_nat b :: rat) / 2 ^ nat (- k)) / of_nat b = 1 / 2 ^ nat (- k)"
        using bpos by simp
      ultimately have "r < 1 / (2 :: rat) ^ nat (- k)" by (simp only: r_def)
      then show ?thesis by (simp only: e two_powi_neg [OF neg'])
    qed
  qed
  from nf val qerr lower upper show ?thesis unfolding r_def by blast
qed

text \<open>The result is a normalised double: its mantissa has exactly 53 bits.\<close>

lemma nearest_float_normal:
  assumes "0 < a" "0 < b"
  shows "2 ^ 52 \<le> mant (nearest_float a b) \<and> mant (nearest_float a b) < 2 ^ 53"
proof -
  define r :: rat where "r = of_nat a / of_nat b"
  obtain q e where nf: "nearest_float a b =
      (if q = 2 ^ 53 then \<lparr>mant = 2 ^ 52, expo = e + 1\<rparr> else \<lparr>mant = q, expo = e\<rparr>)"
    and qerr: "\<bar>of_nat q - r / 2 powi e\<bar> \<le> (1 / 2 :: rat)"
    and lower: "2 powi (e + 52) \<le> r"
    and upper: "r < 2 powi (e + 53)"
    using nearest_float_shape [OF assms] unfolding r_def by blast
  define P :: rat where "P = 2 powi e"
  define y where "y = r / P"
  have pos: "0 < P" by (simp add: P_def)
  have "(2 :: rat) powi (e + 52) = 2 powi e * 2 powi 52" by (rule power_int_add) simp
  then have "P * 4503599627370496 \<le> r" using lower by (simp add: P_def)
  then have lo: "4503599627370496 \<le> y"
    unfolding y_def using pos by (simp add: pos_le_divide_eq mult.commute)
  have "(2 :: rat) powi (e + 53) = 2 powi e * 2 powi 53" by (rule power_int_add) simp
  then have "r < P * 9007199254740992" using upper by (simp add: P_def)
  then have hi: "y < 9007199254740992"
    unfolding y_def using pos by (simp add: pos_divide_less_eq mult.commute)
  from qerr have q: "\<bar>of_nat q - y\<bar> \<le> 1 / 2" by (simp only: y_def P_def)
  from q lo have "(4503599627370495 :: rat) < of_nat q" by linarith
  then have "(of_nat 4503599627370495 :: rat) < of_nat q" by simp
  then have ql: "4503599627370495 < q" by (simp only: of_nat_less_iff)
  from q hi have "(of_nat q :: rat) < 9007199254740993" by linarith
  then have "(of_nat q :: rat) < of_nat 9007199254740993" by simp
  then have qh: "q < 9007199254740993" by (simp only: of_nat_less_iff)
  show ?thesis
  proof (cases "q = 2 ^ 53")
    case True
    then show ?thesis using nf by simp
  next
    case False
    with ql qh show ?thesis using nf by simp
  qed
qed








section \<open>The percentage of the report\<close>




lemma entry_percentage:
  assumes "student_entry st recs = Inr e"
  shows "attendance_percentage e =
           (if 0 < total_days e
            then PyFloat (round_float (float_mul_int (nearest_float (present e) (total_days e)) 100) 2)
            else PyInt 0)"
  using assms unfolding student_entry_eq by auto







section \<open>Decimal numerals are injective\<close>

lemma digit_char_codes: "\<forall>n<10. of_char (digit_char n) = (48 + n :: nat)"
  by (simp add: eval_nat_numeral All_less_Suc digit_char_def)

lemma digit_char_code: "n < 10 \<Longrightarrow> of_char (digit_char n) = (48 + n :: nat)"
  using digit_char_codes by blast

lemma digit_char_inj: "a < 10 \<Longrightarrow> b < 10 \<Longrightarrow> digit_char a = digit_char b \<Longrightarrow> a = b"
  using digit_char_code [of a] digit_char_code [of b] by (metis add_left_cancel)

lemma str_nat_not_Nil: "str_nat n \<noteq> []"
  by (subst str_nat.simps) simp

lemma str_nat_inj: "str_nat n = str_nat m \<Longrightarrow> n = m"
proof (induction n arbitrary: m rule: str_nat.induct)
  case (1 n)
  show ?case
  proof (cases "n < 10")
    case small: True
    show ?thesis
    proof (cases "m < 10")
      case True
      with small "1.prems" show ?thesis
        by (simp add: str_nat.simps [of n] str_nat.simps [of m] digit_char_inj)
    next
      case False
      with small "1.prems" str_nat_not_Nil [of "m div 10"] show ?thesis
        by (simp add: str_nat.simps [of n] str_nat.simps [of m] Cons_eq_append_conv)
    qed
  next
    case large: False
    show ?thesis
    proof (cases "m < 10")
      case True
      with large "1.prems" str_nat_not_Nil [of "n div 10"] show ?thesis
        by (simp add: str_nat.simps [of n] str_nat.simps [of m] append_eq_Cons_conv)
    next
      case False
      with large "1.prems" have eq: "str_nat (n div 10) = str_nat (m div 10)"
        "digit_char (n mod 10) = digit_char (m mod 10)"
        by (simp_all add: str_nat.simps [of n] str_nat.simps [of m])
      from "1.IH" [OF large eq(1)] have "n div 10 = m div 10" .
      moreover from eq(2) have "n mod 10 = m mod 10"
        by (rule digit_char_inj [rotated 2]) simp_all
      ultimately show ?thesis by (metis div_mult_mod_eq)
    qed
  qed
qed

section \<open>Students without records, and the fetch size\<close>

lemma student_no_id_inj: "s_id (student_no k) = s_id (student_no m) \<longleftrightarrow> k = m"
  using str_nat_inj by (auto simp: student_no_def)

lemma student_no_in_roll: "k < n \<Longrightarrow> student_no k \<in> set (student_roll n)"
  by (simp add: student_roll_def)

lemma student_roll_ids: "s_id ` set (student_roll n) = (\<lambda>k. s_id (student_no k)) ` {0..<n}"
  by (simp add: student_roll_def image_image)

lemma fetch_students_eq:
  "fetch_students cid s = take 1000 (filter (\<lambda>st. s_class_id st = cid) (students s))"
  by (simp add: fetch_students_def to_list_def find_docs_def)

lemma fetch_attendance_eq:
  "fetch_attendance cid sd ed s =
     take 1000 (filter (matches_report (build_date_filter cid sd ed)) (attendance s))"
  by (simp add: fetch_attendance_def to_list_def find_docs_def)

lemma report_no_zero_division: "get_class_report cid sd ed s \<noteq> Inl ZeroDivisionError"
proof (cases rule: find_one_cases [of "\<lambda>c. c_id c = cid" "classes s"])
  case absent
  then show ?thesis by (simp add: get_class_report_def)
next
  case (present cls)
  from get_class_report_found [OF present(1), of sd ed] show ?thesis by auto
qed

text \<open>
  Claim C3, as the code has it. The report never fails with a division by zero, although
  the division itself does at divisor zero. The students it reports on are the first
  1000 of the class, in store order; for each of them with no stored record matching the
  query, the report has an entry with \<open>total_days\<close>, \<open>present\<close>, \<open>absent\<close> and \<open>late\<close> all zero and
  the integer \<open>0\<close> as \<open>attendance_percentage\<close>.
\<close>

theorem report_student_without_records:
  "get_class_report cid sd ed s \<noteq> Inl ZeroDivisionError \<and>
   true_div a 0 = Inl ZeroDivisionError \<and>
   fetch_students cid s = take 1000 (filter (\<lambda>st. s_class_id st = cid) (students s)) \<and>
   (\<forall>r st. get_class_report cid sd ed s = Inr r \<and> st \<in> set (fetch_students cid s) \<and>
      (\<forall>x\<in>set (attendance s).
          a_student_id x = s_id st \<longrightarrow> \<not> matches_report (build_date_filter cid sd ed) x) \<longrightarrow>
      (\<exists>e. map_of (student_statistics r) (s_id st) = Some e \<and>
           total_days e = 0 \<and> present e = 0 \<and> absent e = 0 \<and> late e = 0 \<and>
           attendance_percentage e = PyInt 0))"
proof (intro conjI allI impI)
  show "get_class_report cid sd ed s \<noteq> Inl ZeroDivisionError"
    by (rule report_no_zero_division)
  show "true_div a 0 = Inl ZeroDivisionError"
    by (simp add: true_div_def)
  show "fetch_students cid s = take 1000 (filter (\<lambda>st. s_class_id st = cid) (students s))"
    by (rule fetch_students_eq)
next
  fix r st
  assume h: "get_class_report cid sd ed s = Inr r \<and> st \<in> set (fetch_students cid s) \<and>
      (\<forall>x\<in>set (attendance s).
          a_student_id x = s_id st \<longrightarrow> \<not> matches_report (build_date_filter cid sd ed) x)"
  then have r: "get_class_report cid sd ed s = Inr r" and st: "st \<in> set (fetch_students cid s)"
    and none: "\<forall>x\<in>set (attendance s).
          a_student_id x = s_id st \<longrightarrow> \<not> matches_report (build_date_filter cid sd ed) x"
    by simp_all
  obtain e where e: "map_of (student_statistics r) (s_id st) = Some e"
      "(s_id st, e) \<in> set (student_statistics r)"
    using report_lookup [OF r st] by blast
  have "set (fetch_attendance cid sd ed s) \<subseteq>
      {x \<in> set (attendance s). matches_report (build_date_filter cid sd ed) x}"
    unfolding fetch_attendance_eq using set_take_subset [of 1000] by fastforce
  with none have no: "\<forall>x\<in>set (fetch_attendance cid sd ed s). a_student_id x \<noteq> s_id st"
    by blast
  then have empty: "filter (\<lambda>x. a_student_id x = s_id st \<and> P x) (fetch_attendance cid sd ed s) = []"
      "filter (\<lambda>x. a_student_id x = s_id st) (fetch_attendance cid sd ed s) = []" for P
    by (simp_all add: filter_empty_conv)
  from report_entry_counts [OF r e(2)]
  have cnt: "total_days e = 0 \<and> present e = 0 \<and> absent e = 0 \<and> late e = 0"
    by (simp add: empty)
  obtain st' where "student_entry st' (fetch_attendance cid sd ed s) = Inr e"
    using report_entry [OF r e(2)] by blast
  from entry_percentage [OF this] cnt have "attendance_percentage e = PyInt 0"
    by simp
  with e(1) cnt
  show "\<exists>e. map_of (student_statistics r) (s_id st) = Some e \<and>
           total_days e = 0 \<and> present e = 0 \<and> absent e = 0 \<and> late e = 0 \<and>
           attendance_percentage e = PyInt 0"
    by blast
qed

lemma crowded_fetch: "fetch_students ''c1'' crowded_class = student_roll 1000"
proof -
  have "students crowded_class = student_roll 1001"
    by (simp add: crowded_class_def empty_store_def)
  then show ?thesis
    by (simp only: fetch_students_eq filter_student_roll) (simp add: take_student_roll)
qed

lemma crowded_report:
  "\<exists>stats. get_class_report ''c1'' None None crowded_class =
      Inr \<lparr>class_info = class_c1, report_period = (None, None), student_statistics = stats\<rparr>"
proof -
  have "find_one (\<lambda>c. c_id c = ''c1'') (classes crowded_class) = Some class_c1"
    by (simp add: find_one_def crowded_class_def empty_store_def class_c1_def)
  from get_class_report_found [OF this, of None None] show ?thesis by blast
qed

text \<open>
  The claim as stated fails for the 1001st student of a class: \<open>s1000\<close> is a student of
  class \<open>c1\<close> without any attendance record, and the report has no entry for \<open>s1000\<close>.
\<close>

theorem report_student_without_records_counterexample:
  "student_no 1000 \<in> set (students crowded_class) \<and>
   s_class_id (student_no 1000) = ''c1'' \<and>
   attendance crowded_class = [] \<and>
   (\<exists>r. get_class_report ''c1'' None None crowded_class = Inr r \<and>
        map_of (student_statistics r) (s_id (student_no 1000)) = None)"
proof -
  have a: "student_no 1000 \<in> set (students crowded_class)"
    using student_no_in_roll [of 1000 1001] by (simp add: crowded_class_def empty_store_def)
  have b: "s_class_id (student_no 1000) = ''c1''" by (simp add: student_no_def)
  have c: "attendance crowded_class = []" by (simp add: crowded_class_def empty_store_def)
  obtain stats where r: "get_class_report ''c1'' None None crowded_class =
      Inr \<lparr>class_info = class_c1, report_period = (None, None), student_statistics = stats\<rparr>"
    using crowded_report by blast
  have "fst ` set stats = s_id ` set (student_roll 1000)"
    using stats_loop_keys [OF report_stats [OF r]] by (simp add: crowded_fetch)
  moreover have "s_id (student_no 1000) \<notin> s_id ` set (student_roll 1000)"
    by (auto simp: student_roll_ids student_no_id_inj)
  ultimately have "map_of stats (s_id (student_no 1000)) = None"
    by (simp add: map_of_eq_None_iff)
  with a b c r show ?thesis by simp
qed

text \<open>Bob, in the example class, has no record.\<close>

theorem report_student_without_records_witness:
  "\<exists>r e. get_class_report ''c1'' None None school = Inr r \<and>
         bob \<in> set (fetch_students ''c1'' school) \<and>
         filter (\<lambda>x. a_student_id x = s_id bob) (attendance school) = [] \<and>
         map_of (student_statistics r) ''s2'' = Some e \<and>
         total_days e = 0 \<and> present e = 0 \<and> absent e = 0 \<and> late e = 0 \<and>
         attendance_percentage e = PyInt 0"
proof -
  obtain stats where r: "get_class_report ''c1'' None None school =
      Inr \<lparr>class_info = class_c1, report_period = (None, None), student_statistics = stats\<rparr>"
    using get_class_report_found [OF school_class, of None None] by blast
  have st: "bob \<in> set (fetch_students ''c1'' school)" by (simp add: school_students)
  have none: "filter (\<lambda>x. a_student_id x = s_id bob) (attendance school) = []"
    by (simp add: school_def empty_store_def bob_def att_def)
  then have "\<forall>x\<in>set (attendance school).
      a_student_id x = s_id bob \<longrightarrow> \<not> matches_report (build_date_filter ''c1'' None None) x"
    by (simp add: filter_empty_conv)
  with report_student_without_records [of "''c1''" None None school] r st
  obtain e where "map_of stats (s_id bob) = Some e \<and>
           total_days e = 0 \<and> present e = 0 \<and> absent e = 0 \<and> late e = 0 \<and>
           attendance_percentage e = PyInt 0"
    by fastforce
  with r st none show ?thesis by (auto simp: bob_def)
qed

lemma filter_take_filter: "filter P (take n (filter P xs)) = take n (filter P xs)"
  by (rule filter_True) (auto dest: in_set_takeD)

lemma length_get_students: "length (get_students v s) \<le> 1000"
  by (simp add: get_students_eq)

lemma length_get_attendance: "length (get_attendance c d s) \<le> 1000"
  by (simp add: get_attendance_def to_list_def Let_def)

lemma report_on_fetched:
  "get_class_report cid sd ed s =
   get_class_report cid sd ed
     (s\<lparr>students := fetch_students cid s, attendance := fetch_attendance cid sd ed s\<rparr>)"
proof -
  let ?s' = "s\<lparr>students := fetch_students cid s, attendance := fetch_attendance cid sd ed s\<rparr>"
  have "fetch_students cid ?s' = fetch_students cid s"
    by (simp add: fetch_students_eq filter_take_filter)
  moreover have "fetch_attendance cid sd ed ?s' = fetch_attendance cid sd ed s"
    by (simp add: fetch_attendance_eq filter_take_filter)
  ultimately show ?thesis
    by (simp add: get_class_report_def split: option.split)
qed

text \<open>
  Claim C10. The report is the report on the store cut down to what was fetched: the
  first 1000 students of the class and the first 1000 records matching the query. It has
  at most 1000 entries, none with \<open>total_days\<close> above 1000. The list endpoints return at
  most 1000 documents each.
\<close>

theorem report_first_1000:
  "get_class_report cid sd ed s =
     get_class_report cid sd ed
       (s\<lparr>students := fetch_students cid s, attendance := fetch_attendance cid sd ed s\<rparr>) \<and>
   fetch_students cid s = take 1000 (filter (\<lambda>st. s_class_id st = cid) (students s)) \<and>
   fetch_attendance cid sd ed s =
     take 1000 (filter (matches_report (build_date_filter cid sd ed)) (attendance s)) \<and>
   (\<forall>r. get_class_report cid sd ed s = Inr r \<longrightarrow>
      length (student_statistics r) \<le> 1000 \<and>
      (\<forall>(sid, e)\<in>set (student_statistics r). total_days e \<le> 1000)) \<and>
   get_classes s = take 1000 (classes s) \<and>
   length (get_students v s) \<le> 1000 \<and>
   length (get_attendance c d s) \<le> 1000"
proof (intro conjI allI impI)
  show "get_class_report cid sd ed s =
     get_class_report cid sd ed
       (s\<lparr>students := fetch_students cid s, attendance := fetch_attendance cid sd ed s\<rparr>)"
    by (rule report_on_fetched)
  show "fetch_students cid s = take 1000 (filter (\<lambda>st. s_class_id st = cid) (students s))"
    by (rule fetch_students_eq)
  show "fetch_attendance cid sd ed s =
     take 1000 (filter (matches_report (build_date_filter cid sd ed)) (attendance s))"
    by (rule fetch_attendance_eq)
  show "get_classes s = take 1000 (classes s)"
    by (simp add: get_classes_def to_list_def find_docs_def)
  show "length (get_students v s) \<le> 1000" by (rule length_get_students)
  show "length (get_attendance c d s) \<le> 1000" by (rule length_get_attendance)
next
  fix r
  assume r: "get_class_report cid sd ed s = Inr r"
  have "length (fetch_students cid s) \<le> 1000" by (simp add: fetch_students_eq)
  with stats_loop_length [OF report_stats [OF r]]
  show "length (student_statistics r) \<le> 1000" by simp
  show "\<forall>(sid, e)\<in>set (student_statistics r). total_days e \<le> 1000"
  proof (clarify)
    fix sid e
    assume "(sid, e) \<in> set (student_statistics r)"
    from report_entry_counts(1) [OF r this]
    have "total_days e \<le> length (fetch_attendance cid sd ed s)" by simp
    also have "\<dots> \<le> 1000" by (simp add: fetch_attendance_eq)
    finally show "total_days e \<le> 1000" .
  qed
qed

lemma record_no_student_inj: "a_student_id (record_no k) = a_student_id (record_no m) \<longleftrightarrow> k = m"
  using str_nat_inj by (auto simp: record_no_def att_def)

lemma attendance_roll_Suc:
  "attendance_roll (Suc n) = map record_no (rev [Suc 0..<Suc n]) @ [record_no 0]"
  by (simp add: attendance_roll_def upt_conv_Cons del: upt_Suc)

lemma take_attendance_roll:
  "take n (attendance_roll (Suc n)) = map record_no (rev [Suc 0..<Suc n])"
  by (simp add: attendance_roll_Suc del: upt_Suc)

lemma filter_later_records:
  "filter (\<lambda>x. a_student_id x = a_student_id (record_no 0)) (map record_no (rev [Suc 0..<Suc n])) = []"
  by (auto simp: filter_empty_conv record_no_student_inj simp del: upt_Suc)

lemma busy_fetch:
  "fetch_attendance ''c1'' None None busy_class = map record_no (rev [Suc 0..<Suc 1000])"
proof -
  have "attendance busy_class = attendance_roll (Suc 1000)"
    by (simp add: busy_class_def empty_store_def)
  moreover have "filter (matches_report (build_date_filter ''c1'' None None)) (attendance_roll n) =
      attendance_roll n" for n
    by (simp add: attendance_roll_def filter_map o_def matches_report_filter record_no_def att_def)
  ultimately show ?thesis
    by (simp only: fetch_attendance_eq take_attendance_roll)
qed

text \<open>
  On the day with 1001 marks the mark of \<open>s0\<close> is the last one stored: the store holds a
  \<open>present\<close> record of \<open>s0\<close> for class \<open>c1\<close>, and the report counts none.
\<close>

theorem report_first_1000_witness:
  "\<exists>r e. get_class_report ''c1'' None None busy_class = Inr r \<and>
         (''s0'', e) \<in> set (student_statistics r) \<and>
         total_days e = 0 \<and> present e = 0 \<and>
         filter (\<lambda>x. a_student_id x = ''s0'') (attendance busy_class) = [record_no 0] \<and>
         a_class_id (record_no 0) = ''c1'' \<and> a_status (record_no 0) = ''present'' \<and>
         length (attendance busy_class) = 1001"
proof -
  have cls: "find_one (\<lambda>c. c_id c = ''c1'') (classes busy_class) = Some class_c1"
    by (simp add: find_one_def busy_class_def empty_store_def class_c1_def)
  obtain stats where r: "get_class_report ''c1'' None None busy_class =
      Inr \<lparr>class_info = class_c1, report_period = (None, None), student_statistics = stats\<rparr>"
    using get_class_report_found [OF cls, of None None] by blast
  have s0: "s_id (student_no 0) = ''s0''" "a_student_id (record_no 0) = ''s0''"
    by (simp_all add: student_no_def record_no_def att_def str_nat.simps digit_char_def)
  have "fetch_students ''c1'' busy_class = [student_no 0]"
    by (simp add: fetch_students_eq busy_class_def empty_store_def student_no_def)
  then have "student_no 0 \<in> set (fetch_students ''c1'' busy_class)" by simp
  from report_lookup [OF r this] obtain e where e: "(''s0'', e) \<in> set stats"
    by (auto simp: s0)
  then have mem: "(''s0'', e) \<in> set (student_statistics
      \<lparr>class_info = class_c1, report_period = (None, None), student_statistics = stats\<rparr>)"
    by simp
  have none: "filter (\<lambda>x. a_student_id x = ''s0'') (map record_no (rev [Suc 0..<Suc 1000])) = []"
    using filter_later_records [of 1000] by (simp only: s0)
  then have none': "filter (\<lambda>x. a_student_id x = ''s0'' \<and> P x) (map record_no (rev [Suc 0..<Suc 1000])) = []"
    for P
    by (simp only: filter_empty_conv) blast
  from report_entry_counts(1,2) [OF r mem] have cnt: "total_days e = 0 \<and> present e = 0"
    by (simp only: busy_fetch none none') simp
  have att: "attendance busy_class = attendance_roll (Suc 1000)"
    by (simp add: busy_class_def empty_store_def)
  have all: "filter (\<lambda>x. a_student_id x = ''s0'') (attendance busy_class) = [record_no 0]"
    unfolding att attendance_roll_Suc filter_append none by (simp add: s0)
  have len: "length (attendance busy_class) = 1001"
    unfolding att by (simp only: length_attendance_roll)
  have flds: "a_class_id (record_no 0) = ''c1''" "a_status (record_no 0) = ''present''"
    by (simp_all add: record_no_def att_def)
  from report_first_1000 [of "''c1''" None None busy_class] r
  have "total_days e \<le> 1000" using mem by fastforce
  with r e cnt all len flds show ?thesis by auto
qed

end
